theory Spec2Isabelle
  imports Main "HOL-Library.Word"
begin

section \<open>Shared Go notions\<close>

text \<open>
  A Go \<open>string\<close> and a Go \<open>[]byte\<close> are sequences of bytes: lists of 8-bit characters.
  \<open>int\<close> (64 bits wide on the platforms of the demo) and \<open>int64\<close> are 64-bit words, read
  as signed with \<open>sint\<close>.  A Go \<open>error\<close> value is its message; the \<open>nil\<close> error is
  \<open>None\<close>.  A call either returns or panics; the only run-time panic the handlers could
  raise is the integer division by zero.
\<close>

type_synonym bytes = string

type_synonym go_int = "64 word"

type_synonym int64 = "64 word"

type_synonym go_error = string

datatype panic = DivideByZero

datatype result = Return "go_error option" | Panic panic

text \<open>Go's unsigned integer division: a zero divisor panics.\<close>

definition go_div :: "64 word \<Rightarrow> 64 word \<Rightarrow> panic + 64 word" where
  "go_div a b = (if b = 0 then Inl DivideByZero else Inr (a div b))"

section \<open>common/task.go\<close>

definition TypeWelcomeMessage :: string where
  "TypeWelcomeMessage = ''welcome:message''"

definition TypeEmailTask :: string where
  "TypeEmailTask = ''email:send''"

definition TypeServerInfo :: string where
  "TypeServerInfo = ''server:info''"

text \<open>
  The payload structs.  The fields of \<open>EmailPayload\<close> carry the prefix \<open>Email\<close> where
  the name is already a field of \<open>WelcomePayload\<close>.
\<close>

record WelcomePayload =
  UserID :: go_int
  Username :: string
  Message :: string

record EmailPayload =
  EmailUserID :: go_int
  Email :: string
  Subject :: string
  EmailMessage :: string

record ServerInfoPayload =
  Timestamp :: int64
  Source :: string

text \<open>
  The fields of \<open>runtime.MemStats\<close> that \<open>HandleServerInfoTask\<close> reads, at their Go
  widths (\<open>NumGC\<close> is a \<open>uint32\<close>, the others \<open>uint64\<close>), and what else the handler
  asks the runtime for.
\<close>

record MemStats =
  Alloc :: "64 word"
  Sys :: "64 word"
  NumGC :: "32 word"
  PauseTotalNs :: "64 word"
  HeapAlloc :: "64 word"
  HeapSys :: "64 word"
  HeapObjects :: "64 word"

record runtime =
  ReadMemStats :: MemStats
  NumCPU :: go_int
  NumGoroutine :: go_int
  TimeNow :: int

text \<open>
  What a handler does besides returning: one event for each \<open>fmt.Printf\<close> or
  \<open>fmt.Println\<close>, holding the arguments of the call (the format strings are fixed
  texts), and one for each \<open>time.Sleep\<close>, in milliseconds.
\<close>

datatype out =
    WelcomeLine string go_int string
  | EmailToLine string go_int
  | EmailSubjectLine string
  | EmailMessageLine string
  | EmailSentLine
  | InfoHeaderLine int
  | InfoTimestampLine int64
  | InfoNumCPULine go_int
  | InfoGoroutinesLine go_int
  | InfoAllocLine "64 word"
  | InfoSysLine "64 word"
  | InfoNumGCLine "32 word"
  | InfoAvgPauseLine "64 word"
  | InfoAvgPauseNA
  | InfoHeapAllocLine "64 word"
  | InfoHeapSysLine "64 word"
  | InfoHeapObjectsLine "64 word"
  | InfoSourceLine string
  | InfoDoneLine
  | Sleep nat

definition common_HandleWelcomeTask :: "WelcomePayload \<Rightarrow> out list \<times> result" where
  "common_HandleWelcomeTask p =
     ([WelcomeLine (Username p) (UserID p) (Message p), Sleep 200], Return None)"

definition common_HandleEmailTask :: "EmailPayload \<Rightarrow> out list \<times> result" where
  "common_HandleEmailTask p =
     ([EmailToLine (Email p) (EmailUserID p),
       EmailSubjectLine (Subject p),
       EmailMessageLine (EmailMessage p),
       EmailSentLine,
       Sleep 300], Return None)"

text \<open>
  The average-pause line of \<open>HandleServerInfoTask\<close>:
  \<^verbatim>\<open>if m.NumGC > 0 { Printf(..., time.Duration(m.PauseTotalNs/uint64(m.NumGC))) }
  else { Printf("... N/A") }\<close>
\<close>

definition avg_gc_pause :: "MemStats \<Rightarrow> panic + out" where
  "avg_gc_pause m =
     (if NumGC m > 0 then
        (case go_div (PauseTotalNs m) (ucast (NumGC m)) of
           Inl e \<Rightarrow> Inl e
         | Inr q \<Rightarrow> Inr (InfoAvgPauseLine q))
      else Inr InfoAvgPauseNA)"

definition common_HandleServerInfoTask ::
    "runtime \<Rightarrow> ServerInfoPayload \<Rightarrow> out list \<times> result" where
  "common_HandleServerInfoTask rt p =
     (let m = ReadMemStats rt;
          before = [InfoHeaderLine (TimeNow rt),
                    InfoTimestampLine (Timestamp p),
                    InfoNumCPULine (NumCPU rt),
                    InfoGoroutinesLine (NumGoroutine rt),
                    InfoAllocLine (Alloc m),
                    InfoSysLine (Sys m),
                    InfoNumGCLine (NumGC m)]
      in case avg_gc_pause m of
           Inl e \<Rightarrow> (before, Panic e)
         | Inr line \<Rightarrow>
             (before @ [line,
                        InfoHeapAllocLine (HeapAlloc m),
                        InfoHeapSysLine (HeapSys m),
                        InfoHeapObjectsLine (HeapObjects m),
                        InfoSourceLine (Source p),
                        InfoDoneLine], Return None))"

section \<open>main.go: the wrappers around the common handlers\<close>

text \<open>
  An \<open>asynq.Task\<close> as the driver uses it: \<open>asynq.NewTask(typename, payload)\<close> builds it,
  \<open>t.Payload()\<close> reads the bytes back.
\<close>

record Task =
  Typename :: string
  Payload :: bytes

definition NewTask :: "string \<Rightarrow> bytes \<Rightarrow> Task" where
  "NewTask typename payload = \<lparr>Typename = typename, Payload = payload\<rparr>"

text \<open>
  \<open>json.Unmarshal(t.Payload(), &p)\<close> on a fresh \<open>p\<close> belongs to Go's standard library; it
  is a parameter of the wrappers: \<open>Inl err\<close> is the decode error, \<open>Inr p\<close> the decoded
  struct.  \<open>fmt.Errorf("...: %v", err)\<close> appends the message of \<open>err\<close> to the fixed text.
\<close>

type_synonym 'p unmarshal = "bytes \<Rightarrow> go_error + 'p"

definition main_HandleWelcomeTask ::
    "WelcomePayload unmarshal \<Rightarrow> Task \<Rightarrow> out list \<times> result" where
  "main_HandleWelcomeTask unm t =
     (case unm (Payload t) of
        Inl err \<Rightarrow> ([], Return (Some (''failed to unmarshal welcome payload: '' @ err)))
      | Inr p \<Rightarrow> common_HandleWelcomeTask p)"

definition main_HandleEmailTask ::
    "EmailPayload unmarshal \<Rightarrow> Task \<Rightarrow> out list \<times> result" where
  "main_HandleEmailTask unm t =
     (case unm (Payload t) of
        Inl err \<Rightarrow> ([], Return (Some (''failed to unmarshal email payload: '' @ err)))
      | Inr p \<Rightarrow> common_HandleEmailTask p)"

definition main_HandleServerInfoTask ::
    "ServerInfoPayload unmarshal \<Rightarrow> runtime \<Rightarrow> Task \<Rightarrow> out list \<times> result" where
  "main_HandleServerInfoTask unm rt t =
     (case unm (Payload t) of
        Inl err \<Rightarrow> ([], Return (Some (''failed to unmarshal server info payload: '' @ err)))
      | Inr p \<Rightarrow> common_HandleServerInfoTask rt p)"

section \<open>main.go: the driver\<close>

text \<open>
  \<open>main\<close> is a straight sequence of calls into asynq, the runtime and the console.  Its
  model is the list of the calls the main goroutine issues, in program order.  What the
  outside answers is read from a \<open>world\<close>: the environment variables, the results of
  \<open>json.Marshal\<close>, the clock, the errors asynq returns, what \<open>srv.Run\<close> returns in the
  consumer goroutine, and the signal that arrives on \<open>sigChan\<close> (\<open>None\<close>: no signal
  ever arrives and \<open>main\<close> stays blocked on the receive).
\<close>

datatype signal = SIGINT | SIGTERM

record RedisClientOpt =
  Addr :: string
  Password :: string

text \<open>The map literal of \<open>Queues\<close> is kept as the list of its entries.\<close>

record Config =
  Concurrency :: int
  Queues :: "(string \<times> int) list"

text \<open>The enqueue options of asynq that set the time of processing; durations and
  times in nanoseconds.\<close>

datatype opt = ProcessIn int | ProcessAt int

definition Millisecond :: int where
  "Millisecond = 1000000"

datatype handler_name = WelcomeWrapper | EmailWrapper | ServerInfoWrapper

datatype consumer_action =
    ConsumerPrint string
  | SrvRun
  | ConsumerLog string
  | WgDone

datatype action =
    Getenv string
  | NewClient RedisClientOpt
  | NewServer RedisClientOpt Config
  | NewServeMux
  | HandleFunc string handler_name
  | Print string
  | Log string
  | WgAdd nat
  | Go "consumer_action list"
  | SleepMs nat
  | NewScheduler RedisClientOpt
  | Register string Task
  | SchedulerStart
  | Enqueue Task "opt list"
  | SignalNotify "signal list"
  | Receive signal
  | SchedulerShutdown
  | SrvShutdown
  | WgWait
  | ClientClose
  | Exit

record world =
  Environ :: "string \<Rightarrow> string"
  MarshalServerInfo :: "ServerInfoPayload \<Rightarrow> go_error + bytes"
  MarshalWelcome :: "WelcomePayload \<Rightarrow> go_error + bytes"
  MarshalEmail :: "EmailPayload \<Rightarrow> go_error + bytes"
  UnixNow :: int64
  RunResult :: "go_error option"
  RegisterResult :: "go_error option"
  StartResult :: "go_error option"
  EnqueueResult :: "string \<Rightarrow> nat \<Rightarrow> go_error + string"
  Signal :: "signal option"

definition redisConnOpt :: "world \<Rightarrow> RedisClientOpt" where
  "redisConnOpt w =
     (let redisAddr = (if Environ w ''REDIS_ADDR'' \<noteq> [] then Environ w ''REDIS_ADDR''
                       else ''localhost:6380'');
          opt = \<lparr>Addr = redisAddr, Password = []\<rparr>
      in if Environ w ''REDIS_PASSWORD'' \<noteq> []
         then opt\<lparr>Password := Environ w ''REDIS_PASSWORD''\<rparr> else opt)"

definition serverConfig :: Config where
  "serverConfig =
     \<lparr>Concurrency = 5, Queues = [(''critical'', 6), (''default'', 3), (''low'', 1)]\<rparr>"

text \<open>The goroutine started with \<open>go func() { defer wg.Done(); ...; srv.Run(mux) ... }()\<close>.\<close>

definition consumer :: "world \<Rightarrow> consumer_action list" where
  "consumer w =
     [ConsumerPrint ''Consumer started, waiting for tasks...'', SrvRun] @
     (case RunResult w of
        Some err \<Rightarrow> [ConsumerLog (''Consumer error: '' @ err)]
      | None \<Rightarrow> []) @
     [WgDone]"

text \<open>Lines 606 to 658: connection options, client, server, handler registration, start
  of the consumer.\<close>

definition main_setup :: "world \<Rightarrow> action list" where
  "main_setup w =
     [Getenv ''REDIS_ADDR'',
      Getenv ''REDIS_PASSWORD'',
      NewClient (redisConnOpt w),
      NewServer (redisConnOpt w) serverConfig,
      NewServeMux,
      HandleFunc TypeWelcomeMessage WelcomeWrapper,
      HandleFunc TypeEmailTask EmailWrapper,
      HandleFunc TypeServerInfo ServerInfoWrapper,
      Print ''Starting Asynq Demo...'',
      Print (''Redis: '' @ Addr (redisConnOpt w)),
      WgAdd 1,
      Go (consumer w),
      SleepMs 1000]"

text \<open>Lines 660 to 683: the scheduler and its one periodic entry.\<close>

definition serverInfoPayload :: "world \<Rightarrow> ServerInfoPayload" where
  "serverInfoPayload w = \<lparr>Timestamp = UnixNow w, Source = ''periodic-monitor''\<rparr>"

definition main_scheduler :: "world \<Rightarrow> action list" where
  "main_scheduler w =
     [NewScheduler (redisConnOpt w)] @
     (case MarshalServerInfo w (serverInfoPayload w) of
        Inl err \<Rightarrow> [Log (''Failed to marshal server info payload: '' @ err)]
      | Inr payload \<Rightarrow>
          Register ''@every 30s'' (NewTask TypeServerInfo payload) #
          (case RegisterResult w of
             Some err \<Rightarrow> [Log (''Failed to register server info scheduler: '' @ err)]
           | None \<Rightarrow> [Print ''Server info scheduler registered - runs every 30 seconds''])) @
     [SchedulerStart] @
     (case StartResult w of
        Some err \<Rightarrow> [Log (''Failed to start scheduler: '' @ err)]
      | None \<Rightarrow> [])"

text \<open>Lines 685 to 716: the welcome tasks; \<open>i\<close> is the index of \<open>range\<close>.\<close>

definition welcomeTasks :: "WelcomePayload list" where
  "welcomeTasks =
     [\<lparr>UserID = 1, Username = ''Alice'', Message = ''Welcome to our amazing platform!''\<rparr>,
      \<lparr>UserID = 2, Username = ''Bob'', Message = ''Thanks for joining our community!''\<rparr>,
      \<lparr>UserID = 3, Username = ''Charlie'',
        Message = ''We'' @ [CHR 0x27] @ ''re excited to have you here!''\<rparr>]"

fun welcome_loop :: "world \<Rightarrow> nat \<Rightarrow> WelcomePayload list \<Rightarrow> action list" where
  "welcome_loop w i [] = []"
| "welcome_loop w i (task # rest) =
     (case MarshalWelcome w task of
        Inl err \<Rightarrow>
          [Log (''Failed to marshal welcome task for '' @ Username task @ '': '' @ err)]
      | Inr payload \<Rightarrow>
          Enqueue (NewTask TypeWelcomeMessage payload)
            (if i mod 2 = 0 then [] else [ProcessIn (int i * 300 * Millisecond)]) #
          (case EnqueueResult w TypeWelcomeMessage i of
             Inl err \<Rightarrow>
               [Log (''Failed to enqueue welcome task for '' @ Username task @ '': '' @ err)]
           | Inr ident \<Rightarrow>
               [Print (''Enqueued welcome task for '' @ Username task @
                       '' (ID: '' @ ident @ '')'')])) @
     welcome_loop w (i + 1) rest"

text \<open>Lines 718 to 749: the email tasks.\<close>

definition emailTasks :: "EmailPayload list" where
  "emailTasks =
     [\<lparr>EmailUserID = 4, Email = ''alice@example.com'', Subject = ''Welcome!'',
       EmailMessage = ''Welcome to our platform, Alice!''\<rparr>,
      \<lparr>EmailUserID = 5, Email = ''bob@example.com'', Subject = ''Getting Started'',
       EmailMessage = ''Here are some tips to get you started, Bob.''\<rparr>,
      \<lparr>EmailUserID = 6, Email = ''charlie@example.com'', Subject = ''Weekly Newsletter'',
       EmailMessage = ''Check out this week'' @ [CHR 0x27] @ ''s highlights!''\<rparr>]"

fun email_loop :: "world \<Rightarrow> nat \<Rightarrow> EmailPayload list \<Rightarrow> action list" where
  "email_loop w i [] = []"
| "email_loop w i (task # rest) =
     (case MarshalEmail w task of
        Inl err \<Rightarrow>
          [Log (''Failed to marshal email task for '' @ Email task @ '': '' @ err)]
      | Inr payload \<Rightarrow>
          Enqueue (NewTask TypeEmailTask payload)
            (if i mod 2 = 0 then [] else [ProcessIn (int (i + 1) * 500 * Millisecond)]) #
          (case EnqueueResult w TypeEmailTask i of
             Inl err \<Rightarrow>
               [Log (''Failed to enqueue email task for '' @ Email task @ '': '' @ err)]
           | Inr ident \<Rightarrow>
               [Print (''Enqueued email task for '' @ Email task @
                       '' (ID: '' @ ident @ '')'')])) @
     email_loop w (i + 1) rest"

definition main_producer :: "world \<Rightarrow> action list" where
  "main_producer w =
     [Print ''Creating welcome message tasks...''] @
     welcome_loop w 0 welcomeTasks @
     [Print ''Creating email tasks...''] @
     email_loop w 0 emailTasks @
     [Print ''All tasks created! Consumer will process them shortly.'',
      Print ''Press Ctrl+C to stop...'']"

text \<open>
  Lines 754 to 771.  \<open>signal.Notify\<close>, then the receive on \<open>sigChan\<close>.  After it the
  shutdown calls; \<open>client.Close()\<close> was deferred at line 622 and runs when \<open>main\<close>
  returns.
\<close>

definition main_deferred :: "action list" where
  "main_deferred = [ClientClose]"

definition main_shutdown :: "signal \<Rightarrow> action list" where
  "main_shutdown s =
     [Receive s,
      Print ''Shutting down...'',
      SchedulerShutdown,
      SrvShutdown,
      WgWait,
      Print ''Shutdown complete''] @
     main_deferred @ [Exit]"

definition main_before_signal :: "world \<Rightarrow> action list" where
  "main_before_signal w =
     main_setup w @ main_scheduler w @ main_producer w @ [SignalNotify [SIGINT, SIGTERM]]"

definition main :: "world \<Rightarrow> action list" where
  "main w =
     main_before_signal w @
     (case Signal w of None \<Rightarrow> [] | Some s \<Rightarrow> main_shutdown s)"

section \<open>Reading the trace of main\<close>

text \<open>The calls of the shutdown sequence: stopping the scheduler, stopping the server,
  waiting for the consumer goroutine, closing the client.\<close>

fun is_shutdown_call :: "action \<Rightarrow> bool" where
  "is_shutdown_call SchedulerShutdown = True"
| "is_shutdown_call SrvShutdown = True"
| "is_shutdown_call WgWait = True"
| "is_shutdown_call ClientClose = True"
| "is_shutdown_call _ = False"

text \<open>The handler registrations a call makes on the mux, and those of a trace, in order.\<close>

fun registration_of :: "action \<Rightarrow> (string \<times> handler_name) list" where
  "registration_of (HandleFunc pattern h) = [(pattern, h)]"
| "registration_of _ = []"

definition registrations :: "action list \<Rightarrow> (string \<times> handler_name) list" where
  "registrations tr = concat (map registration_of tr)"

text \<open>A call that starts the server: a goroutine whose body calls \<open>srv.Run\<close>.\<close>

fun runs_server :: "action \<Rightarrow> bool" where
  "runs_server (Go body) = (SrvRun \<in> set body)"
| "runs_server _ = False"

text \<open>The type of the task a call hands to asynq, by \<open>client.Enqueue\<close> or by
  \<open>scheduler.Register\<close>.\<close>

fun task_type_of :: "action \<Rightarrow> string list" where
  "task_type_of (Enqueue t opts) = [Typename t]"
| "task_type_of (Register spec t) = [Typename t]"
| "task_type_of _ = []"

definition task_types :: "action list \<Rightarrow> string list" where
  "task_types tr = concat (map task_type_of tr)"

text \<open>The options of each \<open>client.Enqueue\<close> call, and the tasks given to
  \<open>scheduler.Register\<close>.\<close>

fun enqueue_opts_of :: "action \<Rightarrow> opt list list" where
  "enqueue_opts_of (Enqueue t opts) = [opts]"
| "enqueue_opts_of _ = []"

definition enqueue_opts :: "action list \<Rightarrow> opt list list" where
  "enqueue_opts tr = concat (map enqueue_opts_of tr)"

fun registered_task_of :: "action \<Rightarrow> (string \<times> Task) list" where
  "registered_task_of (Register spec t) = [(spec, t)]"
| "registered_task_of _ = []"

definition registered_tasks :: "action list \<Rightarrow> (string \<times> Task) list" where
  "registered_tasks tr = concat (map registered_task_of tr)"

text \<open>A world in which every call succeeds and \<open>SIGINT\<close> arrives; the encoders are
  stand-ins that write a letter for the kind of payload and one of its strings.\<close>

definition sample_world :: world where
  "sample_world =
     \<lparr>Environ = (\<lambda>name. []),
      MarshalServerInfo = (\<lambda>p. Inr (''s:'' @ Source p)),
      MarshalWelcome = (\<lambda>p. Inr (''w:'' @ Username p)),
      MarshalEmail = (\<lambda>p. Inr (''e:'' @ Email p)),
      UnixNow = 1700000000,
      RunResult = None,
      RegisterResult = None,
      StartResult = None,
      EnqueueResult = (\<lambda>typename i. Inr ''id''),
      Signal = Some SIGINT\<rparr>"

section \<open>The process: main and the consumer goroutine\<close>

text \<open>
  The process of \<open>main.go\<close> runs two goroutines: \<open>main\<close> and the consumer started by the
  \<open>go\<close> statement.  A run of the process is an interleaving of their calls.  An event
  \<open>Main a\<close> says that \<open>main\<close> has completed the call \<open>a\<close>, an event \<open>Consumer b\<close> that the
  consumer goroutine has completed \<open>b\<close>; \<open>Consumer SrvRun\<close> is the return of \<open>srv.Run\<close>, the
  moment from which the server has stopped.
\<close>

datatype event = Main action | Consumer consumer_action

datatype status = Running | Exited | Crashed

text \<open>The state of the process: what \<open>main\<close> has still to do, what the consumer goroutine
  has still to do (\<open>None\<close> before the \<open>go\<close> statement), the counter of the
  \<open>sync.WaitGroup\<close>, and whether the process still runs.\<close>

record process =
  mainq :: "action list"
  consq :: "consumer_action list option"
  counter :: int
  status :: status

text \<open>A call of \<open>main\<close>.  \<open>wg.Add n\<close> (line 648) adds to the counter, the \<open>go\<close> statement
  (line 649) starts the goroutine, \<open>wg.Wait\<close> (line 768) blocks (\<open>None\<close>) until the counter
  is zero, and the return from \<open>main\<close> ends the process, whatever other goroutines still
  do.  The other calls do not touch the state of the two goroutines.\<close>

fun main_step :: "action \<Rightarrow> process \<Rightarrow> process option" where
  "main_step (WgAdd n) p = Some (p\<lparr>counter := counter p + int n\<rparr>)"
| "main_step (Go body) p = Some (p\<lparr>consq := Some body\<rparr>)"
| "main_step WgWait p = (if counter p = 0 then Some p else None)"
| "main_step Exit p = Some (p\<lparr>status := Exited\<rparr>)"
| "main_step _ p = Some p"

text \<open>A call of the consumer goroutine (lines 649 to 655).  \<open>wg.Done\<close> takes one from the
  counter and panics when the counter becomes negative, which ends the process.  When
  \<open>srv.Run\<close> returns is decided inside asynq, which is not part of the repository: here
  the call may return at any point of a run, so that what holds for every run holds
  whatever the library does.  (The \<open>Run\<close> of asynq waits for \<open>SIGINT\<close> and \<open>SIGTERM\<close> itself
  and then shuts the server down.)\<close>

fun consumer_step :: "consumer_action \<Rightarrow> process \<Rightarrow> process" where
  "consumer_step WgDone p =
     (if counter p - 1 < 0 then p\<lparr>counter := counter p - 1, status := Crashed\<rparr>
      else p\<lparr>counter := counter p - 1\<rparr>)"
| "consumer_step _ p = p"

text \<open>One event: the goroutine it names completes its next call, which must be the call
  of the event.  Nothing happens once the process has ended.\<close>

fun event_step :: "event \<Rightarrow> process \<Rightarrow> process option" where
  "event_step (Main a) p =
     (if status p \<noteq> Running then None
      else case mainq p of
             [] \<Rightarrow> None
           | a' # rest \<Rightarrow>
               if a = a' then main_step a (p\<lparr>mainq := rest\<rparr>) else None)"
| "event_step (Consumer b) p =
     (if status p \<noteq> Running then None
      else case consq p of
             None \<Rightarrow> None
           | Some [] \<Rightarrow> None
           | Some (b' # rest) \<Rightarrow>
               if b = b' then Some (consumer_step b (p\<lparr>consq := Some rest\<rparr>)) else None)"

text \<open>A run: the events one after the other; \<open>None\<close> when an event cannot happen.\<close>

fun run :: "event list \<Rightarrow> process \<Rightarrow> process option" where
  "run [] p = Some p"
| "run (e # tr) p = (case event_step e p of None \<Rightarrow> None | Some p' \<Rightarrow> run tr p')"

text \<open>The process starts with \<open>main\<close> alone, at the beginning of its calls.\<close>

definition start :: "world \<Rightarrow> process" where
  "start w = \<lparr>mainq = main w, consq = None, counter = 0, status = Running\<rparr>"

text \<open>The calls of \<open>main\<close> in a run, and those of the consumer goroutine.\<close>

fun main_events :: "event list \<Rightarrow> action list" where
  "main_events [] = []"
| "main_events (Main a # tr) = a # main_events tr"
| "main_events (Consumer b # tr) = main_events tr"

fun consumer_events :: "event list \<Rightarrow> consumer_action list" where
  "consumer_events [] = []"
| "consumer_events (Main a # tr) = consumer_events tr"
| "consumer_events (Consumer b # tr) = b # consumer_events tr"

text \<open>
  The shutdown order read on a run of the process.  The steps are numbered: stopping the
  scheduler is step 1; stopping the server and waiting for the consumer goroutine is
  step 2, to which belong \<open>srv.Shutdown\<close>, the return of \<open>srv.Run\<close>, the end of the consumer
  goroutine (\<open>wg.Done\<close>) and \<open>wg.Wait\<close>; closing the client is step 3.  A run keeps the
  order when, from the receipt of the signal on, the step numbers never decrease.
\<close>

fun shutdown_step :: "event \<Rightarrow> nat list" where
  "shutdown_step (Main SchedulerShutdown) = [1]"
| "shutdown_step (Main SrvShutdown) = [2]"
| "shutdown_step (Consumer SrvRun) = [2]"
| "shutdown_step (Consumer WgDone) = [2]"
| "shutdown_step (Main WgWait) = [2]"
| "shutdown_step (Main ClientClose) = [3]"
| "shutdown_step _ = []"

fun nondecreasing :: "nat list \<Rightarrow> bool" where
  "nondecreasing (x # y # ys) = (x \<le> y \<and> nondecreasing (y # ys))"
| "nondecreasing _ = True"

definition shutdown_steps :: "signal \<Rightarrow> event list \<Rightarrow> nat list" where
  "shutdown_steps s tr =
     concat (map shutdown_step (dropWhile (\<lambda>e. e \<noteq> Main (Receive s)) tr))"

definition keeps_shutdown_order :: "signal \<Rightarrow> event list \<Rightarrow> bool" where
  "keeps_shutdown_order s tr = nondecreasing (shutdown_steps s tr)"

text \<open>A run of the sample world in which the consumer goroutine is scheduled right after
  the signal: \<open>srv.Run\<close> returns and the goroutine ends before \<open>main\<close> goes on.\<close>

definition early_stop_run :: "event list" where
  "early_stop_run =
     map Main (main_setup sample_world) @
     [Consumer (ConsumerPrint ''Consumer started, waiting for tasks...'')] @
     map Main (main_scheduler sample_world @ main_producer sample_world @
               [SignalNotify [SIGINT, SIGTERM], Receive SIGINT]) @
     [Consumer SrvRun, Consumer WgDone] @
     map Main [Print ''Shutting down...'', SchedulerShutdown, SrvShutdown, WgWait,
               Print ''Shutdown complete'', ClientClose, Exit]"

text \<open>The run in which \<open>main\<close> goes up to \<open>srv.Shutdown\<close> before the consumer goroutine
  is scheduled at all.\<close>

definition late_stop_run :: "world \<Rightarrow> signal \<Rightarrow> event list" where
  "late_stop_run w s =
     map Main (main_before_signal w) @
     map Main [Receive s, Print ''Shutting down...'', SchedulerShutdown, SrvShutdown] @
     map Consumer (consumer w) @
     map Main [WgWait, Print ''Shutdown complete'', ClientClose, Exit]"

text \<open>What a run has added to the counter of the \<open>WaitGroup\<close>, and how often it has
  called \<open>wg.Done\<close>.\<close>

fun wg_added :: "action list \<Rightarrow> int" where
  "wg_added [] = 0"
| "wg_added (WgAdd n # tr) = int n + wg_added tr"
| "wg_added (_ # tr) = wg_added tr"

fun wg_done :: "consumer_action list \<Rightarrow> int" where
  "wg_done [] = 0"
| "wg_done (WgDone # bs) = 1 + wg_done bs"
| "wg_done (_ # bs) = wg_done bs"

text \<open>The bodies of the \<open>go\<close> statements among some calls.  A process has at most one
  consumer goroutine when it has started none and at most one \<open>go\<close> statement is to
  come, or has started one and none is to come; what this goroutine has still to do is
  then its queue, or the body of the statement to come.\<close>

fun go_bodies :: "action list \<Rightarrow> consumer_action list list" where
  "go_bodies [] = []"
| "go_bodies (Go body # tr) = body # go_bodies tr"
| "go_bodies (_ # tr) = go_bodies tr"

definition one_goroutine :: "process \<Rightarrow> bool" where
  "one_goroutine p =
     (case consq p of
        None \<Rightarrow> length (go_bodies (mainq p)) \<le> 1
      | Some q \<Rightarrow> go_bodies (mainq p) = [])"

definition pending_consumer :: "process \<Rightarrow> consumer_action list" where
  "pending_consumer p =
     (case consq p of None \<Rightarrow> concat (go_bodies (mainq p)) | Some q \<Rightarrow> q)"

text \<open>The calls of \<open>main\<close> that neither block nor touch the goroutines.\<close>

fun plain :: "action \<Rightarrow> bool" where
  "plain (WgAdd n) = False"
| "plain (Go body) = False"
| "plain WgWait = False"
| "plain Exit = False"
| "plain _ = True"

section \<open>The task queue behind the driver\<close>

text \<open>
  The driver only configures and calls the queueing library; scheduling, retry and
  delivery are not in the sources.  The definitions of this section follow the design
  the specification gives for them (sections 3, 4 and 6 of the specification), one task
  envelope at a time.
\<close>

text \<open>Modelled from the spec: the states of a task envelope (section 3); the library's
  own task states are not in the sources.\<close>

datatype task_state = Pending | Scheduled | Active | Retry | Archived

text \<open>Modelled from the spec: the task envelope of section 3 (type, payload, queue, id,
  state, \<open>process_at\<close>, \<open>max_retry\<close>, \<open>retry_count\<close>, \<open>last_error\<close>); the library's
  message type is not in the sources.\<close>

record envelope =
  env_type :: string
  env_payload :: bytes
  env_queue :: string
  env_id :: nat
  env_state :: task_state
  process_at :: int
  max_retry :: nat
  retry_count :: nat
  last_error :: "string option"

text \<open>Modelled from the spec: the error taxonomy of section 7, with the configuration
  error of section 4.1.\<close>

datatype queue_error =
    ConfigurationError
  | StoreUnavailable
  | NoTaskAvailable
  | HandlerNotFound
  | InvalidSpec

text \<open>Modelled from the spec: the scheduling modifiers of an enqueue (section 4.1),
  "exactly one of these or neither may be supplied - supplying both is a configuration
  error".  The result is the \<open>process_at\<close> of the new envelope: the time of the enqueue
  with no modifier, that time plus the delay with \<open>process_in\<close>, the given time with
  \<open>process_at\<close>.  The library's own treatment of options is not in the sources.\<close>

fun resolve_process_at :: "int \<Rightarrow> opt list \<Rightarrow> queue_error + int" where
  "resolve_process_at now [] = Inr now"
| "resolve_process_at now [ProcessIn d] = Inr (now + d)"
| "resolve_process_at now [ProcessAt t] = Inr t"
| "resolve_process_at now (x # y # others) = Inl ConfigurationError"

text \<open>Modelled from the spec: the client's \<open>enqueue(type, payload, [process_in|process_at],
  [queue])\<close> of section 6 with the store's \<open>enqueue\<close> of section 4.2, which puts the
  envelope in the pending set when \<open>process_at \<le> now\<close> and in the scheduled set
  otherwise.  The client of the library is not in the sources.\<close>

definition enqueue ::
    "int \<Rightarrow> nat \<Rightarrow> string \<Rightarrow> nat \<Rightarrow> Task \<Rightarrow> opt list \<Rightarrow> queue_error + envelope" where
  "enqueue now fresh_id queue retries task opts =
     (case resolve_process_at now opts of
        Inl e \<Rightarrow> Inl e
      | Inr at \<Rightarrow>
          Inr \<lparr>env_type = Typename task,
               env_payload = Payload task,
               env_queue = queue,
               env_id = fresh_id,
               env_state = (if at \<le> now then Pending else Scheduled),
               process_at = at,
               max_retry = retries,
               retry_count = 0,
               last_error = None\<rparr>)"

text \<open>Modelled from the spec: \<open>promote_scheduled\<close> of section 4.2, which moves a task
  whose \<open>process_at\<close> has elapsed into pending; a task waiting in the retry state comes
  back the same way.  The store of the library is not in the sources.\<close>

definition promote :: "int \<Rightarrow> envelope \<Rightarrow> envelope" where
  "promote now t =
     (if (env_state t = Scheduled \<or> env_state t = Retry) \<and> process_at t \<le> now
      then t\<lparr>env_state := Pending\<rparr> else t)"

text \<open>Modelled from the spec: \<open>retry(task_id, error, backoff)\<close> of section 4.2:
  "transitions active to retry, increments \<open>retry_count\<close>, sets
  \<open>process_at = now + backoff\<close>; if \<open>retry_count\<close> exceeds \<open>max_retry\<close>, transitions
  to archived (dead) instead", with the error recorded as \<open>last_error\<close> (section 7).
  The steps are taken in the order of the sentence: the count is incremented, then
  compared.\<close>

definition retry :: "int \<Rightarrow> envelope \<Rightarrow> string \<Rightarrow> int \<Rightarrow> envelope" where
  "retry now t err delay =
     (let n = retry_count t + 1 in
      if n > max_retry t
      then t\<lparr>env_state := Archived, retry_count := n, last_error := Some err\<rparr>
      else t\<lparr>env_state := Retry, process_at := now + delay, retry_count := n,
             last_error := Some err\<rparr>)"

text \<open>Modelled from the spec: the backoff of section 4.3, "base delay times
  \<open>2^retry_count\<close>, capped".\<close>

record policy =
  base_delay :: int
  max_delay :: int

definition backoff :: "policy \<Rightarrow> nat \<Rightarrow> int" where
  "backoff pol n = min (max_delay pol) (base_delay pol * 2 ^ n)"

text \<open>Modelled from the spec: the handler registry of section 4.5, a map from the type
  to a function of the context and the payload bytes that returns an error or nil.  The
  context is the number of the attempt, so that a handler may answer differently from
  one attempt to the next.\<close>

type_synonym handler = "nat \<Rightarrow> bytes \<Rightarrow> go_error option"

type_synonym registry = "string \<Rightarrow> handler option"

text \<open>Modelled from the spec: one execution by the dispatcher (section 4.3) of a task
  it has claimed: the task becomes active, the handler registered for its type runs on
  its payload; success is acknowledged and the task removed (\<open>None\<close>), an error goes to
  \<open>retry\<close> with the backoff, and an unregistered type archives the task at once
  (section 4.5).  The dispatcher of the library is not in the sources.\<close>

definition execute :: "registry \<Rightarrow> policy \<Rightarrow> nat \<Rightarrow> int \<Rightarrow> envelope \<Rightarrow> envelope option" where
  "execute reg pol n now t =
     (let a = t\<lparr>env_state := Active\<rparr> in
      case reg (env_type a) of
        None \<Rightarrow> Some (a\<lparr>env_state := Archived, last_error := Some ''HandlerNotFound''\<rparr>)
      | Some h \<Rightarrow>
          (case h n (env_payload a) of
             None \<Rightarrow> None
           | Some err \<Rightarrow> Some (retry now a err (backoff pol (retry_count a)))))"

text \<open>Modelled from the spec: the life of one task under the dispatcher: as long as it
  is not archived, it is promoted when its \<open>process_at\<close> has come, claimed and executed.
  \<open>clock n\<close> is the time at which the dispatcher is free for the attempt number \<open>n\<close>; the
  attempt happens then, or when the task is due if that is later.  The result is the
  archived envelope, or \<open>None\<close> after an acknowledgement, with the number of executions
  of the handler.\<close>

function run_task ::
    "registry \<Rightarrow> policy \<Rightarrow> (nat \<Rightarrow> int) \<Rightarrow> envelope \<Rightarrow> nat \<Rightarrow> envelope option \<times> nat" where
  "run_task reg pol clock t n =
     (if env_state t = Archived then (Some t, n)
      else
        (case execute reg pol n (max (clock n) (process_at t))
                (promote (max (clock n) (process_at t)) t) of
           None \<Rightarrow> (None, Suc n)
         | Some t' \<Rightarrow> run_task reg pol clock t' (Suc n)))"
  by pat_completeness auto
termination
proof (relation "measure (\<lambda>(reg, pol, clock, t, n).
         if env_state t = Archived then 0 else Suc (Suc (max_retry t) - retry_count t))")
  show "wf (measure (\<lambda>(reg, pol, clock, t, n).
         if env_state t = Archived then 0 else Suc (Suc (max_retry t) - retry_count t)))"
    by simp
next
  fix reg :: registry and pol :: policy and clock :: "nat \<Rightarrow> int"
    and t t' :: envelope and n :: nat
  assume na: "env_state t \<noteq> Archived"
    and ex: "execute reg pol n (max (clock n) (process_at t))
               (promote (max (clock n) (process_at t)) t) = Some t'"
  have "env_state t' = Archived \<or>
        (retry_count t' = Suc (retry_count t) \<and> max_retry t' = max_retry t
         \<and> retry_count t < max_retry t)"
    using ex
    by (auto simp: execute_def retry_def promote_def Let_def
        split: option.splits if_splits)
  then show "((reg, pol, clock, t', Suc n), (reg, pol, clock, t, n))
      \<in> measure (\<lambda>(reg, pol, clock, t, n).
           if env_state t = Archived then 0 else Suc (Suc (max_retry t) - retry_count t))"
    using na by auto
qed

declare run_task.simps [simp del]

text \<open>Modelled from the spec: a schedule entry (sections 3 and 4.4): an interval, the
  task template bound at registration, and the next time of firing.  The scheduler of
  the library is not in the sources.\<close>

record schedule_entry =
  entry_interval :: int
  entry_template :: Task
  next_fire :: int

text \<open>Modelled from the spec: registration (section 4.4) fails with \<open>InvalidSpec\<close> when
  the expression cannot be parsed; the parser of interval expressions is a parameter.\<close>

definition register ::
    "(string \<Rightarrow> int option) \<Rightarrow> int \<Rightarrow> string \<Rightarrow> Task \<Rightarrow> queue_error + schedule_entry" where
  "register parse now spec task =
     (case parse spec of
        None \<Rightarrow> Inl InvalidSpec
      | Some d \<Rightarrow> Inr \<lparr>entry_interval = d, entry_template = task, next_fire = now + d\<rparr>)"

text \<open>Modelled from the spec: a timer tick of the scheduler (section 4.4): an entry whose
  next time of firing has elapsed "enqueues the bound task template as a new envelope
  (fresh id, \<open>process_at = now\<close>)", and its next time of firing is computed again.\<close>

definition fire :: "string \<Rightarrow> nat \<Rightarrow> schedule_entry \<Rightarrow> int \<Rightarrow> nat \<Rightarrow> envelope" where
  "fire queue retries e now fresh_id =
     \<lparr>env_type = Typename (entry_template e),
      env_payload = Payload (entry_template e),
      env_queue = queue,
      env_id = fresh_id,
      env_state = Pending,
      process_at = now,
      max_retry = retries,
      retry_count = 0,
      last_error = None\<rparr>"

definition tick ::
    "string \<Rightarrow> nat \<Rightarrow> int \<Rightarrow> nat \<Rightarrow> schedule_entry \<Rightarrow> envelope list \<times> schedule_entry" where
  "tick queue retries now fresh_id e =
     (if next_fire e \<le> now
      then ([fire queue retries e now fresh_id], e\<lparr>next_fire := now + entry_interval e\<rparr>)
      else ([], e))"

text \<open>Modelled from the spec: the scheduler over the times of its ticks; the envelopes it
  produces, in order, with ids counted up from \<open>fresh_id\<close>.\<close>

fun run_scheduler ::
    "string \<Rightarrow> nat \<Rightarrow> schedule_entry \<Rightarrow> nat \<Rightarrow> int list \<Rightarrow> envelope list" where
  "run_scheduler queue retries e fresh_id [] = []"
| "run_scheduler queue retries e fresh_id (now # later) =
     fst (tick queue retries now fresh_id e) @
     run_scheduler queue retries (snd (tick queue retries now fresh_id e))
       (fresh_id + length (fst (tick queue retries now fresh_id e))) later"

text \<open>Modelled from the spec: the task after its first \<open>k\<close> executions by the dispatcher,
  numbered from \<open>n\<close> (\<open>None\<close> once an execution was acknowledged); an archived task is
  executed no more.\<close>

fun after_attempts ::
    "registry \<Rightarrow> policy \<Rightarrow> (nat \<Rightarrow> int) \<Rightarrow> envelope \<Rightarrow> nat \<Rightarrow> nat \<Rightarrow> envelope option" where
  "after_attempts reg pol clock t n 0 = Some t"
| "after_attempts reg pol clock t n (Suc k) =
     (if env_state t = Archived then Some t
      else
        (case execute reg pol n (max (clock n) (process_at t))
                (promote (max (clock n) (process_at t)) t) of
           None \<Rightarrow> None
         | Some t' \<Rightarrow> after_attempts reg pol clock t' (Suc n) k))"

text \<open>A task as the client's enqueue creates it, a handler that fails at every attempt,
  and a retry policy, for the examples.\<close>

definition sample_envelope :: envelope where
  "sample_envelope =
     \<lparr>env_type = TypeEmailTask, env_payload = ''{}'', env_queue = ''default'',
      env_id = 7, env_state = Pending, process_at = 0, max_retry = 2, retry_count = 0,
      last_error = None\<rparr>"

definition failing_registry :: registry where
  "failing_registry typename =
     (if typename = TypeEmailTask then Some (\<lambda>n payload. Some ''smtp down'') else None)"

definition sample_policy :: policy where
  "sample_policy = \<lparr>base_delay = 1000, max_delay = 60000\<rparr>"

text \<open>A parser of interval expressions that knows the one expression of the driver, in
  nanoseconds, for the examples.\<close>

definition sample_parse :: "string \<Rightarrow> int option" where
  "sample_parse spec = (if spec = ''@every 30s'' then Some 30000000000 else None)"

section \<open>The handlers of the driver under the dispatcher\<close>

text \<open>The three decoders \<open>json.Unmarshal\<close> stands for in the wrappers, one for each
  payload struct.\<close>

record decoders =
  UnmarshalWelcome :: "WelcomePayload unmarshal"
  UnmarshalEmail :: "EmailPayload unmarshal"
  UnmarshalServerInfo :: "ServerInfoPayload unmarshal"

text \<open>The function of main.go that \<open>mux.HandleFunc\<close> was given.\<close>

fun wrapper :: "decoders \<Rightarrow> runtime \<Rightarrow> handler_name \<Rightarrow> Task \<Rightarrow> out list \<times> result" where
  "wrapper dec rt WelcomeWrapper = main_HandleWelcomeTask (UnmarshalWelcome dec)"
| "wrapper dec rt EmailWrapper = main_HandleEmailTask (UnmarshalEmail dec)"
| "wrapper dec rt ServerInfoWrapper = main_HandleServerInfoTask (UnmarshalServerInfo dec) rt"

text \<open>Modelled from the spec: a registered function as the dispatcher sees it (section
  4.5): it is given the payload bytes of the envelope and answers with an error or nil;
  a handler that panics counts as failed (section 4.3).  The library's call of the
  handler is not in the sources.\<close>

definition as_handler :: "(Task \<Rightarrow> out list \<times> result) \<Rightarrow> string \<Rightarrow> handler" where
  "as_handler f typename n payload =
     (case snd (f (NewTask typename payload)) of
        Return e \<Rightarrow> e
      | Panic x \<Rightarrow> Some ''panic'')"

text \<open>Modelled from the spec: the registry (section 4.5) that the registrations of a trace
  build: the type of a task selects the function registered under it.\<close>

definition mux_registry ::
    "decoders \<Rightarrow> runtime \<Rightarrow> (string \<times> handler_name) list \<Rightarrow> registry" where
  "mux_registry dec rt regs typename =
     (case map_of regs typename of
        None \<Rightarrow> None
      | Some h \<Rightarrow> Some (as_handler (wrapper dec rt h) typename))"

section \<open>encoding/json on the payload structs\<close>

text \<open>
  The driver marshals the payload structs with \<open>json.Marshal\<close> and the wrappers read them
  back with \<open>json.Unmarshal\<close>.  This section follows Go's \<open>encoding/json\<close>,
  \<open>unicode/utf8\<close> and \<open>strconv\<close> for values of these three struct types: fields of
  type \<open>int\<close>, \<open>int64\<close> and \<open>string\<close>, named by their \<open>json\<close> tags.  Runes and byte
  values are natural numbers; the shifts and masks of the Go code are written as
  multiplication, division and remainder.  The standard library is not part of the
  repository; the definitions are translated from its sources as of Go 1.22, whose
  encoder writes the backspace and the form feed as the short escapes \<open>\b\<close> and \<open>\f\<close>
  (earlier versions write them as \<open>\u0008\<close> and \<open>\u000c\<close>, which the decoder reads back
  alike).
\<close>

subsection \<open>unicode/utf8\<close>










subsection \<open>strconv\<close>








subsection \<open>encode.go\<close>

















subsection \<open>scanner.go\<close>


datatype parse_state = parseObjectKey | parseObjectValue | parseArrayValue

text \<open>The field \<open>step\<close> of the Go scanner holds the state function to call on the next
  byte; here it holds the name of that function.\<close>

datatype step_state =
    StBeginValueOrEmpty
  | StBeginValue
  | StBeginStringOrEmpty
  | StBeginString
  | StEndValue
  | StEndTop
  | StInString
  | StInStringEsc
  | StInStringEscU
  | StInStringEscU1
  | StInStringEscU12
  | StInStringEscU123
  | StNeg
  | St1
  | St0
  | StDot
  | StDot0
  | StE
  | StESign
  | StE0
  | StT
  | StTr
  | StTru
  | StF
  | StFa
  | StFal
  | StFals
  | StN
  | StNu
  | StNul
  | StError

text \<open>The stack \<open>parseState\<close> has its top at the head of the list.  The scanner has an
  error exactly when its step is \<open>StError\<close>.\<close>

record scanner =
  step :: step_state
  parseState :: "parse_state list"
  endTop :: bool




























subsection \<open>decode.go\<close>




























subsection \<open>What the scanner and the decoder meet on an encoded struct\<close>




subsection \<open>The decoders of the wrappers\<close>




section \<open>Properties of the handlers\<close>

lemma ucast_NumGC_nonzero: "(n :: 32 word) \<noteq> 0 \<Longrightarrow> (ucast n :: 64 word) \<noteq> 0"
proof
  assume nz: "n \<noteq> 0" and z: "(ucast n :: 64 word) = 0"
  have "uint (ucast n :: 64 word) = uint n"
    by (rule uint_up_ucast) (simp add: is_up)
  with z have "uint n = 0" by simp
  with nz show False by (simp add: uint_0_iff)
qed

lemma avg_gc_pause_eq:
  "avg_gc_pause m =
     (if NumGC m > 0 then Inr (InfoAvgPauseLine (PauseTotalNs m div ucast (NumGC m)))
      else Inr InfoAvgPauseNA)"
  by (simp add: avg_gc_pause_def go_div_def ucast_NumGC_nonzero word_greater_zero_iff)

lemma common_HandleServerInfoTask_returns:
  "snd (common_HandleServerInfoTask rt p) = Return None"
  by (simp add: common_HandleServerInfoTask_def avg_gc_pause_eq Let_def)

text \<open>
  C8.  \<open>HandleServerInfoTask\<close> never divides by zero.  The quotient
  \<open>PauseTotalNs / uint64(NumGC)\<close> is computed by \<open>go_div\<close>, which panics on a zero
  divisor; for every payload and every \<open>MemStats\<close> the handler does not panic, the
  average-pause line holds the quotient when \<open>NumGC > 0\<close> and is the N/A line when
  \<open>NumGC = 0\<close>, and the divisor the handler passes is not zero whenever it divides.
\<close>

theorem HandleServerInfoTask_never_divides_by_zero:
  "snd (common_HandleServerInfoTask rt p) \<noteq> Panic DivideByZero
   \<and> avg_gc_pause (ReadMemStats rt) =
       (if NumGC (ReadMemStats rt) = 0 then Inr InfoAvgPauseNA
        else Inr (InfoAvgPauseLine
               (PauseTotalNs (ReadMemStats rt) div ucast (NumGC (ReadMemStats rt)))))
   \<and> (if NumGC (ReadMemStats rt) = 0
       then InfoAvgPauseNA \<in> set (fst (common_HandleServerInfoTask rt p))
       else go_div (PauseTotalNs (ReadMemStats rt)) (ucast (NumGC (ReadMemStats rt)))
              = Inr (PauseTotalNs (ReadMemStats rt) div ucast (NumGC (ReadMemStats rt)))
            \<and> InfoAvgPauseLine
                 (PauseTotalNs (ReadMemStats rt) div ucast (NumGC (ReadMemStats rt)))
                 \<in> set (fst (common_HandleServerInfoTask rt p)))"
  by (simp add: common_HandleServerInfoTask_returns avg_gc_pause_eq
      common_HandleServerInfoTask_def Let_def go_div_def ucast_NumGC_nonzero
      word_greater_zero_iff)

section \<open>Properties of the driver\<close>

lemma registrations_append [simp]:
  "registrations (xs @ ys) = registrations xs @ registrations ys"
  by (simp add: registrations_def)

lemma task_types_append [simp]: "task_types (xs @ ys) = task_types xs @ task_types ys"
  by (simp add: task_types_def)

lemma enqueue_opts_append [simp]:
  "enqueue_opts (xs @ ys) = enqueue_opts xs @ enqueue_opts ys"
  by (simp add: enqueue_opts_def)

lemma registered_tasks_append [simp]:
  "registered_tasks (xs @ ys) = registered_tasks xs @ registered_tasks ys"
  by (simp add: registered_tasks_def)

lemma registrations_Cons [simp]:
  "registrations (a # tr) = registration_of a @ registrations tr"
  by (simp add: registrations_def)

lemma task_types_Cons [simp]: "task_types (a # tr) = task_type_of a @ task_types tr"
  by (simp add: task_types_def)

lemma enqueue_opts_Cons [simp]: "enqueue_opts (a # tr) = enqueue_opts_of a @ enqueue_opts tr"
  by (simp add: enqueue_opts_def)

lemma registered_tasks_Cons [simp]:
  "registered_tasks (a # tr) = registered_task_of a @ registered_tasks tr"
  by (simp add: registered_tasks_def)

lemma registrations_Nil [simp]: "registrations [] = []"
  by (simp add: registrations_def)

lemma task_types_Nil [simp]: "task_types [] = []"
  by (simp add: task_types_def)

lemma enqueue_opts_Nil [simp]: "enqueue_opts [] = []"
  by (simp add: enqueue_opts_def)

lemma registered_tasks_Nil [simp]: "registered_tasks [] = []"
  by (simp add: registered_tasks_def)

subsection \<open>The two producer loops\<close>

lemma welcome_loop_no_shutdown: "filter is_shutdown_call (welcome_loop w i ts) = []"
  by (induction ts arbitrary: i) (simp_all split: sum.splits)

lemma email_loop_no_shutdown: "filter is_shutdown_call (email_loop w i ts) = []"
  by (induction ts arbitrary: i) (simp_all split: sum.splits)

lemma welcome_loop_no_receive: "Receive s \<notin> set (welcome_loop w i ts)"
  by (induction ts arbitrary: i) (simp_all split: sum.splits)

lemma email_loop_no_receive: "Receive s \<notin> set (email_loop w i ts)"
  by (induction ts arbitrary: i) (simp_all split: sum.splits)

lemma welcome_loop_no_registration: "registrations (welcome_loop w i ts) = []"
  by (induction ts arbitrary: i) (simp_all split: sum.splits)

lemma email_loop_no_registration: "registrations (email_loop w i ts) = []"
  by (induction ts arbitrary: i) (simp_all split: sum.splits)

lemma welcome_loop_no_server: "filter runs_server (welcome_loop w i ts) = []"
  by (induction ts arbitrary: i) (simp_all split: sum.splits)

lemma email_loop_no_server: "filter runs_server (email_loop w i ts) = []"
  by (induction ts arbitrary: i) (simp_all split: sum.splits)

lemma welcome_loop_task_types:
  "set (task_types (welcome_loop w i ts)) \<subseteq> {TypeWelcomeMessage}"
  by (induction ts arbitrary: i) (simp_all add: NewTask_def split: sum.splits)

lemma email_loop_task_types:
  "set (task_types (email_loop w i ts)) \<subseteq> {TypeEmailTask}"
  by (induction ts arbitrary: i) (simp_all add: NewTask_def split: sum.splits)

lemma welcome_loop_opts:
  "opts \<in> set (enqueue_opts (welcome_loop w i ts)) \<Longrightarrow>
     opts = [] \<or> (\<exists>d. opts = [ProcessIn d])"
  by (induction ts arbitrary: i) (auto split: sum.splits if_splits)

lemma email_loop_opts:
  "opts \<in> set (enqueue_opts (email_loop w i ts)) \<Longrightarrow>
     opts = [] \<or> (\<exists>d. opts = [ProcessIn d])"
  by (induction ts arbitrary: i) (auto split: sum.splits if_splits)

lemma welcome_loop_no_register: "registered_tasks (welcome_loop w i ts) = []"
  by (induction ts arbitrary: i) (simp_all split: sum.splits)

lemma email_loop_no_register: "registered_tasks (email_loop w i ts) = []"
  by (induction ts arbitrary: i) (simp_all split: sum.splits)

subsection \<open>The part of main before the signal\<close>

lemma main_before_signal_no_shutdown:
  "filter is_shutdown_call (main_before_signal w) = []"
  by (simp add: main_before_signal_def main_setup_def main_scheduler_def main_producer_def
      welcome_loop_no_shutdown email_loop_no_shutdown split: sum.splits option.splits)

lemma main_before_signal_no_receive: "Receive s \<notin> set (main_before_signal w)"
  by (simp add: main_before_signal_def main_setup_def main_scheduler_def main_producer_def
      welcome_loop_no_receive email_loop_no_receive split: sum.splits option.splits)

subsection \<open>Registrations, task types and options in the trace\<close>

lemma main_scheduler_registrations: "registrations (main_scheduler w) = []"
  by (simp add: main_scheduler_def split: sum.splits option.splits)

lemma main_producer_registrations: "registrations (main_producer w) = []"
  by (simp add: main_producer_def welcome_loop_no_registration email_loop_no_registration)

lemma main_shutdown_registrations: "registrations (main_shutdown s) = []"
  by (simp add: main_shutdown_def main_deferred_def)

lemma main_scheduler_task_types: "set (task_types (main_scheduler w)) \<subseteq> {TypeServerInfo}"
  by (simp add: main_scheduler_def NewTask_def split: sum.splits option.splits)

lemma main_producer_task_types:
  "set (task_types (main_producer w)) \<subseteq> {TypeWelcomeMessage, TypeEmailTask}"
  using welcome_loop_task_types [of w 0 welcomeTasks] email_loop_task_types [of w 0 emailTasks]
  by (auto simp: main_producer_def)

lemma main_shutdown_task_types: "task_types (main_shutdown s) = []"
  by (simp add: main_shutdown_def main_deferred_def)

text \<open>
  C6.  The three handlers are registered on the mux before the goroutine that calls
  \<open>srv.Run\<close> is started, nothing is registered after that, no server runs before it,
  and every task type that \<open>main\<close> enqueues or registers with the scheduler has a
  handler among the three.
\<close>

theorem handlers_registered_before_server_runs:
  "\<exists>before after.
      main w = before @ Go (consumer w) # after
    \<and> runs_server (Go (consumer w))
    \<and> filter runs_server before = []
    \<and> registrations before
        = [(TypeWelcomeMessage, WelcomeWrapper), (TypeEmailTask, EmailWrapper),
           (TypeServerInfo, ServerInfoWrapper)]
    \<and> registrations after = []
    \<and> set (task_types (main w)) \<subseteq> fst ` set (registrations before)"
proof -
  let ?before = "[Getenv ''REDIS_ADDR'', Getenv ''REDIS_PASSWORD'',
      NewClient (redisConnOpt w), NewServer (redisConnOpt w) serverConfig, NewServeMux,
      HandleFunc TypeWelcomeMessage WelcomeWrapper, HandleFunc TypeEmailTask EmailWrapper,
      HandleFunc TypeServerInfo ServerInfoWrapper, Print ''Starting Asynq Demo...'',
      Print (''Redis: '' @ Addr (redisConnOpt w)), WgAdd 1]"
  let ?tail = "case Signal w of None \<Rightarrow> [] | Some s \<Rightarrow> main_shutdown s"
  let ?after = "SleepMs 1000 # main_scheduler w @ main_producer w @
      [SignalNotify [SIGINT, SIGTERM]] @ ?tail"
  have m: "main w = ?before @ Go (consumer w) # ?after"
    by (simp add: main_def main_before_signal_def main_setup_def)
  have rs: "runs_server (Go (consumer w))"
    by (simp add: consumer_def)
  have nb: "filter runs_server ?before = []"
    by simp
  have rb: "registrations ?before
        = [(TypeWelcomeMessage, WelcomeWrapper), (TypeEmailTask, EmailWrapper),
           (TypeServerInfo, ServerInfoWrapper)]"
    by simp
  have rt: "registrations ?tail = []"
    by (cases "Signal w") (simp_all add: main_shutdown_registrations)
  have ra: "registrations ?after = []"
    using rt by (simp add: main_scheduler_registrations main_producer_registrations)
  have tt: "task_types ?tail = []"
    by (cases "Signal w") (simp_all add: main_shutdown_task_types)
  have "task_types (main w) = task_types (main_scheduler w) @ task_types (main_producer w)"
    using tt by (simp add: m)
  then have ty: "set (task_types (main w))
                   \<subseteq> {TypeWelcomeMessage, TypeEmailTask, TypeServerInfo}"
    using main_scheduler_task_types [of w] main_producer_task_types [of w] by auto
  have "fst ` set (registrations ?before) = {TypeWelcomeMessage, TypeEmailTask, TypeServerInfo}"
    by (simp only: rb) simp
  with ty have ts: "set (task_types (main w)) \<subseteq> fst ` set (registrations ?before)"
    by simp
  from m rs nb rb ra ts show ?thesis
    by blast
qed

theorem handlers_registered_before_server_runs_witness:
  "\<exists>before after.
      main sample_world = before @ Go (consumer sample_world) # after
    \<and> runs_server (Go (consumer sample_world))
    \<and> filter runs_server before = []
    \<and> registrations before
        = [(TypeWelcomeMessage, WelcomeWrapper), (TypeEmailTask, EmailWrapper),
           (TypeServerInfo, ServerInfoWrapper)]
    \<and> registrations after = []
    \<and> set (task_types (main sample_world)) \<subseteq> fst ` set (registrations before)"
  by (rule handlers_registered_before_server_runs)

lemma main_enqueue_opts:
  "enqueue_opts (main w)
     = enqueue_opts (welcome_loop w 0 welcomeTasks) @ enqueue_opts (email_loop w 0 emailTasks)"
  by (simp add: main_def main_before_signal_def main_setup_def main_scheduler_def
      main_producer_def main_shutdown_def main_deferred_def
      split: sum.splits option.splits)

lemma main_opts_shape:
  assumes "opts \<in> set (enqueue_opts (main w))"
  shows "opts = [] \<or> (\<exists>d. opts = [ProcessIn d])"
  using assms welcome_loop_opts [of opts w 0 welcomeTasks]
    email_loop_opts [of opts w 0 emailTasks]
  by (auto simp: main_enqueue_opts)

lemma resolve_process_at_error:
  "(resolve_process_at now opts = Inl ConfigurationError) = (length opts > 1)"
  by (induction now opts rule: resolve_process_at.induct) simp_all

text \<open>
  C5.  An enqueue takes at most one scheduling modifier: with two or more (so with both
  \<open>process_in\<close> and \<open>process_at\<close>) it is a configuration error, with one or none it is
  not.  Every \<open>client.Enqueue\<close> call of the driver passes either no option or the one
  option \<open>ProcessIn\<close>, which is not a configuration error.
\<close>

theorem enqueue_takes_at_most_one_modifier:
  "resolve_process_at now [ProcessIn d, ProcessAt at] = Inl ConfigurationError
   \<and> resolve_process_at now [ProcessAt at, ProcessIn d] = Inl ConfigurationError
   \<and> (resolve_process_at now opts = Inl ConfigurationError) = (length opts > 1)
   \<and> (\<forall>opts \<in> set (enqueue_opts (main w)).
         length opts \<le> 1
       \<and> (opts = [] \<or> (\<exists>d. opts = [ProcessIn d]))
       \<and> resolve_process_at now opts \<noteq> Inl ConfigurationError)"
proof -
  have "\<forall>opts \<in> set (enqueue_opts (main w)).
         length opts \<le> 1
       \<and> (opts = [] \<or> (\<exists>d. opts = [ProcessIn d]))
       \<and> resolve_process_at now opts \<noteq> Inl ConfigurationError"
  proof
    fix opts assume "opts \<in> set (enqueue_opts (main w))"
    then have s: "opts = [] \<or> (\<exists>d. opts = [ProcessIn d])"
      by (rule main_opts_shape)
    then have "length opts \<le> 1" by auto
    then show "length opts \<le> 1
       \<and> (opts = [] \<or> (\<exists>d. opts = [ProcessIn d]))
       \<and> resolve_process_at now opts \<noteq> Inl ConfigurationError"
      using s by (simp add: resolve_process_at_error)
  qed
  then show ?thesis
    by (simp add: resolve_process_at_error)
qed

lemma sample_world_enqueue_opts:
  "enqueue_opts (main sample_world)
     = [[], [ProcessIn 300000000], [], [], [ProcessIn 1000000000], []]"
  by (simp add: main_enqueue_opts welcomeTasks_def emailTasks_def sample_world_def
      Millisecond_def)

theorem enqueue_takes_at_most_one_modifier_witness:
  "[ProcessIn 300000000] \<in> set (enqueue_opts (main sample_world))
   \<and> length [ProcessIn 300000000] \<le> 1
   \<and> resolve_process_at 0 [ProcessIn 300000000] \<noteq> Inl ConfigurationError
   \<and> resolve_process_at 0 [ProcessIn 5, ProcessAt 9] = Inl ConfigurationError"
proof -
  have i: "[ProcessIn 300000000] \<in> set (enqueue_opts (main sample_world))"
    by (simp add: sample_world_enqueue_opts)
  note t = enqueue_takes_at_most_one_modifier [of 0 5 9 _ sample_world]
  from t i have "length [ProcessIn 300000000] \<le> 1
       \<and> resolve_process_at 0 [ProcessIn 300000000] \<noteq> Inl ConfigurationError"
    by blast
  moreover from t have "resolve_process_at 0 [ProcessIn 5, ProcessAt 9] = Inl ConfigurationError"
    by blast
  ultimately show ?thesis
    using i by blast
qed

section \<open>The shutdown of the process\<close>

subsection \<open>Runs of the process\<close>

lemma run_append:
  "run (xs @ ys) p = (case run xs p of None \<Rightarrow> None | Some p' \<Rightarrow> run ys p')"
  by (induction xs arbitrary: p) (simp_all split: option.splits)

lemma main_events_append [simp]: "main_events (xs @ ys) = main_events xs @ main_events ys"
  by (induction xs rule: main_events.induct) simp_all

lemma consumer_events_append [simp]:
  "consumer_events (xs @ ys) = consumer_events xs @ consumer_events ys"
  by (induction xs rule: consumer_events.induct) simp_all

lemma main_events_map_Main [simp]: "main_events (map Main xs) = xs"
  by (induction xs) simp_all

lemma main_events_map_Consumer [simp]: "main_events (map Consumer bs) = []"
  by (induction bs) simp_all

lemma consumer_events_map_Main [simp]: "consumer_events (map Main xs) = []"
  by (induction xs) simp_all

lemma consumer_events_map_Consumer [simp]: "consumer_events (map Consumer bs) = bs"
  by (induction bs) simp_all

lemma wg_added_append [simp]: "wg_added (xs @ ys) = wg_added xs + wg_added ys"
  by (induction xs rule: wg_added.induct) simp_all

lemma wg_done_append [simp]: "wg_done (xs @ ys) = wg_done xs + wg_done ys"
  by (induction xs rule: wg_done.induct) simp_all

lemma go_bodies_append [simp]: "go_bodies (xs @ ys) = go_bodies xs @ go_bodies ys"
  by (induction xs rule: go_bodies.induct) simp_all

lemma main_step_fields:
  assumes "main_step a p = Some p'"
  shows "mainq p' = mainq p"
    and "counter p' = counter p + wg_added [a]"
    and "consq p' = (case go_bodies [a] of [] \<Rightarrow> consq p | body # bs \<Rightarrow> Some body)"
  using assms by (cases a; simp split: if_splits; fastforce)+

lemma step_Main:
  assumes "event_step (Main a) p = Some p'"
  shows "status p = Running" and "mainq p = a # mainq p'"
    and "counter p' = counter p + wg_added [a]"
    and "consq p' = (case go_bodies [a] of [] \<Rightarrow> consq p | body # bs \<Rightarrow> Some body)"
    and "a = WgWait \<Longrightarrow> counter p = 0"
proof -
  from assms show r: "status p = Running"
    by (simp split: if_splits)
  from assms r obtain rest where q: "mainq p = a # rest"
    and m: "main_step a (p\<lparr>mainq := rest\<rparr>) = Some p'"
    by (cases "mainq p") (simp_all split: if_splits)
  from main_step_fields [OF m] q show "mainq p = a # mainq p'"
    and "counter p' = counter p + wg_added [a]"
    and "consq p' = (case go_bodies [a] of [] \<Rightarrow> consq p | body # bs \<Rightarrow> Some body)"
    by (simp_all split: list.splits)
  from m show "a = WgWait \<Longrightarrow> counter p = 0"
    by (simp split: if_splits)
qed

lemma consumer_step_fields:
  "mainq (consumer_step b p) = mainq p"
  "consq (consumer_step b p) = consq p"
  "counter (consumer_step b p) = counter p - wg_done [b]"
  by (cases b; simp)+

lemma step_Consumer:
  assumes "event_step (Consumer b) p = Some p'"
  shows "status p = Running" and "mainq p' = mainq p"
    and "counter p' = counter p - wg_done [b]"
    and "\<exists>rest. consq p = Some (b # rest) \<and> consq p' = Some rest"
proof -
  from assms show r: "status p = Running"
    by (simp split: if_splits)
  from assms r obtain rest where q: "consq p = Some (b # rest)"
    and m: "p' = consumer_step b (p\<lparr>consq := Some rest\<rparr>)"
    by (cases "consq p"; simp split: if_splits list.splits) 
  from q m show "mainq p' = mainq p" and "counter p' = counter p - wg_done [b]"
    and "\<exists>rest. consq p = Some (b # rest) \<and> consq p' = Some rest"
    by (simp_all add: consumer_step_fields)
qed

text \<open>The calls of \<open>main\<close> in a run are the calls of its program, in their order.\<close>

lemma run_main_events:
  "run tr p = Some p' \<Longrightarrow> main_events tr @ mainq p' = mainq p"
proof (induction tr arbitrary: p)
  case Nil
  then show ?case by simp
next
  case (Cons e tr)
  from Cons.prems obtain p1 where s: "event_step e p = Some p1" and r: "run tr p1 = Some p'"
    by (simp split: option.splits)
  show ?case
  proof (cases e)
    case (Main a)
    with s Cons.IH [OF r] step_Main(2) [of a p p1] show ?thesis by simp
  next
    case (Consumer b)
    with s Cons.IH [OF r] step_Consumer(2) [of b p p1] show ?thesis by simp
  qed
qed

text \<open>The counter of the \<open>WaitGroup\<close> is what \<open>main\<close> has added less the calls of
  \<open>wg.Done\<close>.\<close>

lemma run_counter:
  "run tr p = Some p' \<Longrightarrow>
     counter p' = counter p + wg_added (main_events tr) - wg_done (consumer_events tr)"
proof (induction tr arbitrary: p)
  case Nil
  then show ?case by simp
next
  case (Cons e tr)
  from Cons.prems obtain p1 where s: "event_step e p = Some p1" and r: "run tr p1 = Some p'"
    by (simp split: option.splits)
  show ?case
  proof (cases e)
    case (Main a)
    with s Cons.IH [OF r] step_Main(3) [of a p p1] show ?thesis
      by (cases a) simp_all
  next
    case (Consumer b)
    with s Cons.IH [OF r] step_Consumer(3) [of b p p1] show ?thesis
      by (cases b) simp_all
  qed
qed

text \<open>The calls of the consumer goroutine in a run are the calls of the body of the
  \<open>go\<close> statement, in their order.\<close>

lemma step_pending:
  assumes "event_step e p = Some p'" and "one_goroutine p"
  shows "one_goroutine p' \<and> consumer_events [e] @ pending_consumer p' = pending_consumer p"
proof (cases e)
  case (Main a)
  note f = step_Main [OF assms(1) [unfolded Main]]
  show ?thesis
  proof (cases "go_bodies [a]")
    case Nil
    with f(2,4) assms(2) show ?thesis
      by (simp add: Main one_goroutine_def pending_consumer_def split: option.splits)
         (cases a; simp)+
  next
    case (Cons body bs)
    then have a: "a = Go body"
      by (cases a) simp_all
    with f(2,4) assms(2) show ?thesis
      by (simp add: Main one_goroutine_def pending_consumer_def split: option.splits)
  qed
next
  case (Consumer b)
  note f = step_Consumer [OF assms(1) [unfolded Consumer]]
  from f(4) obtain rest where "consq p = Some (b # rest)" and "consq p' = Some rest"
    by blast
  with f(2) assms(2) show ?thesis
    by (simp add: Consumer one_goroutine_def pending_consumer_def)
qed

lemma run_consumer_events:
  "run tr p = Some p' \<Longrightarrow> one_goroutine p \<Longrightarrow>
     consumer_events tr @ pending_consumer p' = pending_consumer p"
proof (induction tr arbitrary: p)
  case Nil
  then show ?case by simp
next
  case (Cons e tr)
  from Cons.prems obtain p1 where s: "event_step e p = Some p1" and r: "run tr p1 = Some p'"
    by (simp split: option.splits)
  from step_pending [OF s Cons.prems(2)]
  have o: "one_goroutine p1" and c: "consumer_events [e] @ pending_consumer p1 = pending_consumer p"
    by simp_all
  from Cons.IH [OF r o] c show ?case
    by (cases e) auto
qed

lemma run_stopped:
  "status p \<noteq> Running \<Longrightarrow> run tr p = Some p' \<Longrightarrow> tr = [] \<and> p' = p"
  by (cases tr; cases "hd tr") (auto split: option.splits)

lemma step_Main_status:
  "event_step (Main a) p = Some p' \<Longrightarrow> status p' = (if a = Exit then Exited else Running)"
  by (cases "mainq p"; cases a) (auto split: if_splits)

lemma step_Consumer_status:
  "event_step (Consumer b) p = Some p' \<Longrightarrow>
     status p' = Running \<or> (status p' = Crashed \<and> counter p' < 0)"
  by (cases "consq p"; cases b) (auto split: if_splits list.splits)

text \<open>A process that has panicked has a negative counter, and a process whose \<open>main\<close>
  has returned does not run any more.\<close>

lemma run_status:
  "run tr p = Some p' \<Longrightarrow> status p = Running \<Longrightarrow>
     (status p' = Crashed \<longrightarrow> counter p' < 0)
   \<and> (Exit \<in> set (main_events tr) \<longrightarrow> status p' \<noteq> Running)"
proof (induction tr arbitrary: p)
  case Nil
  then show ?case by simp
next
  case (Cons e tr)
  from Cons.prems obtain p1 where s: "event_step e p = Some p1" and r: "run tr p1 = Some p'"
    by (simp split: option.splits)
  show ?case
  proof (cases "status p1 = Running")
    case True
    have "e \<noteq> Main Exit"
      using s True step_Main_status [of Exit p p1] by auto
    with Cons.IH [OF r True] show ?thesis
      by (cases e) auto
  next
    case False
    from run_stopped [OF False r] have t: "tr = []" and p: "p' = p1"
      by simp_all
    show ?thesis
    proof (cases e)
      case (Main a)
      with s step_Main_status [of a p p1] False t p show ?thesis
        by (auto split: if_splits)
    next
      case (Consumer b)
      with s step_Consumer_status [of b p p1] False t p show ?thesis
        by auto
    qed
  qed
qed

lemma main_events_set: "a \<in> set (main_events tr) \<longleftrightarrow> Main a \<in> set tr"
  by (induction tr rule: main_events.induct) auto

lemma main_events_takeWhile:
  "main_events (takeWhile (\<lambda>e. e \<noteq> Main a) tr) = takeWhile (\<lambda>x. x \<noteq> a) (main_events tr)"
  by (induction tr rule: main_events.induct) auto

text \<open>A goroutine whose last call is \<open>wg.Done\<close>, and no other, has come to its end once
  it has called \<open>wg.Done\<close>.\<close>

lemma wg_done_nonneg: "0 \<le> wg_done bs"
  by (induction bs rule: wg_done.induct) simp_all

lemma wg_done_last: "bs \<noteq> [] \<Longrightarrow> last bs = WgDone \<Longrightarrow> 1 \<le> wg_done bs"
proof (induction bs rule: wg_done.induct)
  case (2 bs)
  then show ?case using wg_done_nonneg [of bs] by simp
qed (auto split: if_splits)

lemma done_is_end:
  assumes "xs @ ys = body @ [WgDone]" and "wg_done body = 0" and "wg_done xs = 1"
  shows "ys = []"
proof (rule ccontr)
  assume n: "ys \<noteq> []"
  then have "last ys = last (xs @ ys)"
    by simp
  also have "\<dots> = WgDone"
    by (simp add: assms(1))
  finally have "1 \<le> wg_done ys"
    using n wg_done_last by blast
  moreover have "wg_done xs + wg_done ys = 1"
    using arg_cong [OF assms(1), of wg_done] assms(2) by simp
  ultimately show False
    using assms(3) by simp
qed

subsection \<open>The calls of main, as seen by the two goroutines\<close>

lemma plain_wg_added: "list_all plain xs \<Longrightarrow> wg_added xs = 0"
  by (induction xs rule: wg_added.induct) simp_all

lemma plain_go_bodies: "list_all plain xs \<Longrightarrow> go_bodies xs = []"
  by (induction xs rule: go_bodies.induct) simp_all

lemma plain_no_wait: "list_all plain xs \<Longrightarrow> WgWait \<notin> set xs"
  by (induction xs) auto

lemma welcome_loop_plain: "list_all plain (welcome_loop w i ts)"
  by (induction ts arbitrary: i) (simp_all split: sum.splits)

lemma email_loop_plain: "list_all plain (email_loop w i ts)"
  by (induction ts arbitrary: i) (simp_all split: sum.splits)

lemma main_after_go_plain:
  "list_all plain (SleepMs 1000 # main_scheduler w @ main_producer w @
                   [SignalNotify [SIGINT, SIGTERM]])"
  by (simp add: main_scheduler_def main_producer_def welcome_loop_plain email_loop_plain
      split: sum.splits option.splits)

lemma main_before_signal_shape:
  "main_before_signal w =
     take 10 (main_setup w) @ [WgAdd 1, Go (consumer w)] @
     (SleepMs 1000 # main_scheduler w @ main_producer w @ [SignalNotify [SIGINT, SIGTERM]])"
  by (simp add: main_before_signal_def main_setup_def)

lemma main_before_go_plain: "list_all plain (take 10 (main_setup w))"
  by (simp add: main_setup_def)

lemma main_before_signal_wg_added: "wg_added (main_before_signal w) = 1"
proof -
  have a: "wg_added (take 10 (main_setup w)) = 0"
    by (rule plain_wg_added [OF main_before_go_plain])
  have b: "wg_added (SleepMs 1000 # main_scheduler w @ main_producer w @
                     [SignalNotify [SIGINT, SIGTERM]]) = 0"
    by (rule plain_wg_added [OF main_after_go_plain])
  show ?thesis
    unfolding main_before_signal_shape wg_added_append a b by simp
qed

lemma main_before_signal_go_bodies: "go_bodies (main_before_signal w) = [consumer w]"
proof -
  have a: "go_bodies (take 10 (main_setup w)) = []"
    by (rule plain_go_bodies [OF main_before_go_plain])
  have b: "go_bodies (SleepMs 1000 # main_scheduler w @ main_producer w @
                      [SignalNotify [SIGINT, SIGTERM]]) = []"
    by (rule plain_go_bodies [OF main_after_go_plain])
  show ?thesis
    unfolding main_before_signal_shape go_bodies_append a b by simp
qed

lemma main_before_signal_no_wait: "WgWait \<notin> set (main_before_signal w)"
proof -
  have a: "WgWait \<notin> set (take 10 (main_setup w))"
    by (rule plain_no_wait [OF main_before_go_plain])
  have b: "WgWait \<notin> set (SleepMs 1000 # main_scheduler w @ main_producer w @
                           [SignalNotify [SIGINT, SIGTERM]])"
    by (rule plain_no_wait [OF main_after_go_plain])
  show ?thesis
    unfolding main_before_signal_shape set_append using a b by simp
qed

lemma main_shutdown_calls:
  assumes "Signal w = Some s"
  shows "main w = main_before_signal w @
           [Receive s, Print ''Shutting down...'', SchedulerShutdown, SrvShutdown,
            WgWait, Print ''Shutdown complete'', ClientClose, Exit]"
    and "filter is_shutdown_call (main w)
           = [SchedulerShutdown, SrvShutdown, WgWait, ClientClose]"
    and "dropWhile (\<lambda>a. a \<noteq> Receive s) (main w)
           = [Receive s, Print ''Shutting down...'', SchedulerShutdown, SrvShutdown,
              WgWait, Print ''Shutdown complete'', ClientClose, Exit]"
    and "takeWhile (\<lambda>a. a \<noteq> Receive s) (main w) = main_before_signal w"
    and "takeWhile (\<lambda>a. a \<noteq> WgWait) (main w) = main_before_signal w @
           [Receive s, Print ''Shutting down...'', SchedulerShutdown, SrvShutdown]"
proof -
  let ?pre = "main_before_signal w"
  show m: "main w = ?pre @
           [Receive s, Print ''Shutting down...'', SchedulerShutdown, SrvShutdown,
            WgWait, Print ''Shutdown complete'', ClientClose, Exit]"
    using assms by (simp add: main_def main_shutdown_def main_deferred_def)
  have nr: "\<forall>a\<in>set ?pre. a \<noteq> Receive s"
    using main_before_signal_no_receive [of s w] by blast
  have nw: "\<forall>a\<in>set ?pre. a \<noteq> WgWait"
    using main_before_signal_no_wait [of w] by blast
  show "filter is_shutdown_call (main w)
          = [SchedulerShutdown, SrvShutdown, WgWait, ClientClose]"
    by (simp add: m main_before_signal_no_shutdown)
  show "dropWhile (\<lambda>a. a \<noteq> Receive s) (main w)
          = [Receive s, Print ''Shutting down...'', SchedulerShutdown, SrvShutdown,
             WgWait, Print ''Shutdown complete'', ClientClose, Exit]"
    using nr by (simp add: m dropWhile_append)
  show "takeWhile (\<lambda>a. a \<noteq> Receive s) (main w) = ?pre"
    using nr by (simp add: m takeWhile_append)
  show "takeWhile (\<lambda>a. a \<noteq> WgWait) (main w) = ?pre @
          [Receive s, Print ''Shutting down...'', SchedulerShutdown, SrvShutdown]"
    using nw by (simp add: m takeWhile_append)
qed

lemma consumer_shape: "\<exists>body. consumer w = body @ [WgDone] \<and> wg_done body = 0"
  by (simp add: consumer_def split: option.splits)

subsection \<open>Every complete run joins the consumer goroutine\<close>

lemma start_one_goroutine:
  assumes "Signal w = Some s"
  shows "one_goroutine (start w)" and "pending_consumer (start w) = consumer w"
  by (simp_all add: one_goroutine_def pending_consumer_def start_def
      main_shutdown_calls(1) [OF assms] main_before_signal_go_bodies)

lemma complete_run_joins:
  assumes sig: "Signal w = Some s"
    and r: "run tr (start w) = Some p" and c: "mainq p = []"
  shows "main_events tr = main w"
    and "consumer_events (takeWhile (\<lambda>e. e \<noteq> Main WgWait) tr) = consumer w"
    and "consumer_events (dropWhile (\<lambda>e. e \<noteq> Main WgWait) tr) = []"
    and "status p = Exited"
proof -
  let ?P = "\<lambda>e. e \<noteq> Main WgWait"
  let ?tr1 = "takeWhile ?P tr" and ?tr2 = "dropWhile ?P tr"
  note m = main_shutdown_calls [OF sig]
  from run_main_events [OF r] c show me: "main_events tr = main w"
    by (simp add: start_def)
  have "WgWait \<in> set (main_events tr)"
    by (simp add: me m(1))
  then have "Main WgWait \<in> set tr"
    by (simp add: main_events_set)
  then have "?tr2 \<noteq> []"
    by (simp add: dropWhile_eq_Nil_conv)
  then obtain tr2' where t2: "?tr2 = Main WgWait # tr2'"
    using hd_dropWhile [of ?P tr] by (cases ?tr2) auto
  have split: "tr = ?tr1 @ Main WgWait # tr2'"
    using takeWhile_dropWhile_id [of ?P tr] t2 by simp
  from r obtain p1 where r1: "run ?tr1 (start w) = Some p1"
    and r2: "run (Main WgWait # tr2') p1 = Some p"
    using run_append [of ?tr1 "Main WgWait # tr2'" "start w"] split
    by (auto split: option.splits)
  from r2 obtain p2 where "event_step (Main WgWait) p1 = Some p2"
    by (auto split: option.splits)
  then have z: "counter p1 = 0"
    using step_Main(5) by blast
  have me1: "main_events ?tr1 = main_before_signal w @
               [Receive s, Print ''Shutting down...'', SchedulerShutdown, SrvShutdown]"
    by (simp add: main_events_takeWhile me m(5))
  have "wg_added (main_events ?tr1) = 1"
    unfolding me1 wg_added_append main_before_signal_wg_added by simp
  with run_counter [OF r1] z have d: "wg_done (consumer_events ?tr1) = 1"
    by (simp add: start_def)
  from consumer_shape obtain body where b: "consumer w = body @ [WgDone]"
    and b0: "wg_done body = 0"
    by blast
  from run_consumer_events [OF r1 start_one_goroutine(1) [OF sig]]
  have pc: "consumer_events ?tr1 @ pending_consumer p1 = body @ [WgDone]"
    by (simp add: start_one_goroutine(2) [OF sig] b)
  from done_is_end [OF pc b0 d] pc show c1: "consumer_events ?tr1 = consumer w"
    by (simp add: b)
  from run_consumer_events [OF r start_one_goroutine(1) [OF sig]]
  have "consumer_events tr @ pending_consumer p = consumer w"
    by (simp add: start_one_goroutine(2) [OF sig])
  moreover have "consumer_events tr = consumer_events ?tr1 @ consumer_events ?tr2"
    unfolding consumer_events_append [symmetric] takeWhile_dropWhile_id ..
  ultimately show "consumer_events ?tr2 = []"
    by (simp add: c1)
  have all: "consumer_events tr = consumer w"
    using \<open>consumer_events tr = consumer_events ?tr1 @ consumer_events ?tr2\<close>
      \<open>consumer_events ?tr2 = []\<close> c1 by simp
  have "counter p = 0 + wg_added (main w) - wg_done (consumer w)"
    using run_counter [OF r] by (simp add: start_def me all)
  moreover have "wg_added (main w) = 1"
    unfolding m(1) wg_added_append main_before_signal_wg_added by simp
  moreover have "wg_done (consumer w) = 1"
    by (simp add: b b0)
  ultimately have "counter p = 0"
    by simp
  moreover have "Exit \<in> set (main_events tr)"
    by (simp add: me m(1))
  ultimately show "status p = Exited"
    using run_status [OF r] by (cases "status p") (simp_all add: start_def)
qed

subsection \<open>A complete run exists\<close>

lemma plain_step: "plain a \<Longrightarrow> main_step a p = Some p"
  by (cases a) simp_all

lemma run_plain:
  "list_all plain xs \<Longrightarrow>
     run (map Main xs) \<lparr>mainq = xs @ rest, consq = q, counter = c, status = Running\<rparr>
       = Some \<lparr>mainq = rest, consq = q, counter = c, status = Running\<rparr>"
  by (induction xs) (simp_all add: plain_step)

lemma run_consumer:
  "run (map Consumer (consumer w))
       \<lparr>mainq = m, consq = Some (consumer w), counter = 1, status = Running\<rparr>
     = Some \<lparr>mainq = m, consq = Some [], counter = 0, status = Running\<rparr>"
  by (simp add: consumer_def split: option.splits)

lemma run_late_stop_run:
  assumes "Signal w = Some s"
  shows "run (late_stop_run w s) (start w)
           = Some \<lparr>mainq = [], consq = Some [], counter = 0, status = Exited\<rparr>"
proof -
  let ?pre = "take 10 (main_setup w)"
  let ?post = "(SleepMs 1000 # main_scheduler w @ main_producer w @
                [SignalNotify [SIGINT, SIGTERM]]) @
               [Receive s, Print ''Shutting down...'', SchedulerShutdown, SrvShutdown]"
  let ?join = "[WgWait, Print ''Shutdown complete'', ClientClose, Exit]"
  have m: "main w = ?pre @ [WgAdd 1, Go (consumer w)] @ ?post @ ?join"
    unfolding main_shutdown_calls(1) [OF assms] main_before_signal_shape by simp
  have l: "late_stop_run w s =
             map Main ?pre @ map Main [WgAdd 1, Go (consumer w)] @ map Main ?post @
             map Consumer (consumer w) @ map Main ?join"
    unfolding late_stop_run_def main_before_signal_shape by simp
  have pp: "list_all plain ?post"
    using main_after_go_plain [of w] by simp
  have r1: "run (map Main ?pre) (start w)
              = Some \<lparr>mainq = [WgAdd 1, Go (consumer w)] @ ?post @ ?join, consq = None,
                       counter = 0, status = Running\<rparr>"
    unfolding start_def m by (rule run_plain [OF main_before_go_plain])
  have r2: "run (map Main [WgAdd 1, Go (consumer w)])
                \<lparr>mainq = [WgAdd 1, Go (consumer w)] @ ?post @ ?join, consq = None,
                  counter = 0, status = Running\<rparr>
              = Some \<lparr>mainq = ?post @ ?join, consq = Some (consumer w),
                       counter = 1, status = Running\<rparr>"
    by simp
  have r3: "run (map Main ?post)
                \<lparr>mainq = ?post @ ?join, consq = Some (consumer w),
                  counter = 1, status = Running\<rparr>
              = Some \<lparr>mainq = ?join, consq = Some (consumer w),
                       counter = 1, status = Running\<rparr>"
    by (rule run_plain [OF pp])
  have r5: "run (map Main ?join)
                \<lparr>mainq = ?join, consq = Some [], counter = 0, status = Running\<rparr>
              = Some \<lparr>mainq = [], consq = Some [], counter = 0, status = Exited\<rparr>"
    by simp
  show ?thesis
    unfolding l run_append r1 r2 r3 run_consumer r5 option.case ..
qed

lemma run_early_stop_run:
  "run early_stop_run (start sample_world)
     = Some \<lparr>mainq = [], consq = Some [], counter = 0, status = Exited\<rparr>"
  by (simp add: early_stop_run_def start_def main_def main_before_signal_def main_setup_def
      main_scheduler_def main_producer_def main_shutdown_def main_deferred_def
      welcomeTasks_def emailTasks_def consumer_def sample_world_def)

lemma early_stop_run_after_signal:
  "dropWhile (\<lambda>e. e \<noteq> Main (Receive SIGINT)) early_stop_run =
     [Main (Receive SIGINT), Consumer SrvRun, Consumer WgDone,
      Main (Print ''Shutting down...''), Main SchedulerShutdown, Main SrvShutdown,
      Main WgWait, Main (Print ''Shutdown complete''), Main ClientClose, Main Exit]"
  by (simp add: early_stop_run_def main_setup_def
      main_scheduler_def main_producer_def
      welcomeTasks_def emailTasks_def sample_world_def)

lemma shutdown_steps_early_stop_run:
  "shutdown_steps SIGINT early_stop_run = [2, 2, 1, 2, 2, 3]"
  by (simp add: shutdown_steps_def early_stop_run_after_signal)

lemma shutdown_steps_late_stop_run:
  "shutdown_steps s (late_stop_run w s) = [1, 2, 2, 2, 2, 3]"
proof -
  have "\<forall>e\<in>set (map Main (main_before_signal w)). e \<noteq> Main (Receive s)"
    using main_before_signal_no_receive [of s w] by auto
  then have "dropWhile (\<lambda>e. e \<noteq> Main (Receive s)) (late_stop_run w s) =
               map Main [Receive s, Print ''Shutting down...'', SchedulerShutdown, SrvShutdown] @
               map Consumer (consumer w) @
               map Main [WgWait, Print ''Shutdown complete'', ClientClose, Exit]"
    unfolding late_stop_run_def by (simp add: dropWhile_append)
  then show ?thesis
    by (simp add: shutdown_steps_def consumer_def split: option.splits)
qed

text \<open>
  C4.  The claim fails on the process: in \<open>early_stop_run\<close>, a complete run of the sample
  world, \<open>srv.Run\<close> returns and the consumer goroutine ends after the receipt of the signal
  and before \<open>main\<close> calls \<open>scheduler.Shutdown\<close>, so that step 2 begins before step 1
  has been issued.  Nothing in \<open>main.go\<close> orders the return of \<open>srv.Run\<close> with the calls
  of \<open>main\<close> other than \<open>wg.Wait\<close>.
\<close>

theorem server_stop_before_scheduler_shutdown:
  "run early_stop_run (start sample_world)
     = Some \<lparr>mainq = [], consq = Some [], counter = 0, status = Exited\<rparr>
   \<and> shutdown_steps SIGINT early_stop_run = [2, 2, 1, 2, 2, 3]
   \<and> \<not> keeps_shutdown_order SIGINT early_stop_run"
  by (simp add: run_early_stop_run keeps_shutdown_order_def shutdown_steps_early_stop_run)

text \<open>
  C4, as the code has it.  When a signal \<open>s\<close> (\<open>SIGINT\<close> or \<open>SIGTERM\<close>) arrives, the process
  has a run to the return of \<open>main\<close> that keeps the order of the claim, the one in which
  the consumer goroutine is scheduled after \<open>srv.Shutdown\<close>.  In every run to the return
  of \<open>main\<close>, whenever \<open>srv.Run\<close> returns:
  the shutdown calls of \<open>main\<close> are, in this order and each once, \<open>scheduler.Shutdown\<close>,
  \<open>srv.Shutdown\<close>, \<open>wg.Wait\<close> and the deferred \<open>client.Close\<close>, all after the receipt of the
  signal; before \<open>wg.Wait\<close> returns the consumer goroutine has made all its calls, of which
  \<open>srv.Run\<close> is one and \<open>wg.Done\<close> the last, and it makes none afterwards; and the process
  ends by the return of \<open>main\<close>, not by a panic of \<open>wg.Done\<close>.
\<close>

theorem main_shutdown_order_joins_consumer:
  assumes "Signal w = Some s"
  shows "run (late_stop_run w s) (start w)
           = Some \<lparr>mainq = [], consq = Some [], counter = 0, status = Exited\<rparr>
       \<and> keeps_shutdown_order s (late_stop_run w s)
       \<and> (run tr (start w) = Some p \<and> mainq p = [] \<longrightarrow>
            filter is_shutdown_call (main_events tr)
              = [SchedulerShutdown, SrvShutdown, WgWait, ClientClose]
          \<and> dropWhile (\<lambda>a. a \<noteq> Receive s) (main_events tr)
              = [Receive s, Print ''Shutting down...'', SchedulerShutdown, SrvShutdown,
                 WgWait, Print ''Shutdown complete'', ClientClose, Exit]
          \<and> filter is_shutdown_call (takeWhile (\<lambda>a. a \<noteq> Receive s) (main_events tr)) = []
          \<and> consumer_events (takeWhile (\<lambda>e. e \<noteq> Main WgWait) tr) = consumer w
          \<and> consumer_events (dropWhile (\<lambda>e. e \<noteq> Main WgWait) tr) = []
          \<and> SrvRun \<in> set (consumer w) \<and> last (consumer w) = WgDone
          \<and> status p = Exited)"
proof (intro conjI impI)
  show "run (late_stop_run w s) (start w)
          = Some \<lparr>mainq = [], consq = Some [], counter = 0, status = Exited\<rparr>"
    by (rule run_late_stop_run [OF assms])
  show "keeps_shutdown_order s (late_stop_run w s)"
    by (simp add: keeps_shutdown_order_def shutdown_steps_late_stop_run)
  show "SrvRun \<in> set (consumer w)" and "last (consumer w) = WgDone"
    by (simp_all add: consumer_def)
next
  assume c: "run tr (start w) = Some p \<and> mainq p = []"
  note j = complete_run_joins [OF assms conjunct1 [OF c] conjunct2 [OF c]]
  note m = main_shutdown_calls [OF assms]
  show "filter is_shutdown_call (main_events tr)
          = [SchedulerShutdown, SrvShutdown, WgWait, ClientClose]"
    unfolding j(1) by (rule m(2))
  show "dropWhile (\<lambda>a. a \<noteq> Receive s) (main_events tr)
          = [Receive s, Print ''Shutting down...'', SchedulerShutdown, SrvShutdown,
             WgWait, Print ''Shutdown complete'', ClientClose, Exit]"
    unfolding j(1) by (rule m(3))
  show "filter is_shutdown_call (takeWhile (\<lambda>a. a \<noteq> Receive s) (main_events tr)) = []"
    unfolding j(1) m(4) by (rule main_before_signal_no_shutdown)
  show "consumer_events (takeWhile (\<lambda>e. e \<noteq> Main WgWait) tr) = consumer w"
    by (rule j(2))
  show "consumer_events (dropWhile (\<lambda>e. e \<noteq> Main WgWait) tr) = []"
    by (rule j(3))
  show "status p = Exited"
    by (rule j(4))
qed

theorem main_shutdown_order_joins_consumer_witness:
  "Signal sample_world = Some SIGINT
   \<and> run early_stop_run (start sample_world)
       = Some \<lparr>mainq = [], consq = Some [], counter = 0, status = Exited\<rparr>
   \<and> filter is_shutdown_call (main_events early_stop_run)
       = [SchedulerShutdown, SrvShutdown, WgWait, ClientClose]
   \<and> consumer_events (takeWhile (\<lambda>e. e \<noteq> Main WgWait) early_stop_run)
       = [ConsumerPrint ''Consumer started, waiting for tasks...'', SrvRun, WgDone]
   \<and> consumer_events (dropWhile (\<lambda>e. e \<noteq> Main WgWait) early_stop_run) = []"
proof -
  have h: "Signal sample_world = Some SIGINT"
    by (simp add: sample_world_def)
  have c: "consumer sample_world
             = [ConsumerPrint ''Consumer started, waiting for tasks...'', SrvRun, WgDone]"
    by (simp add: consumer_def sample_world_def)
  from main_shutdown_order_joins_consumer [OF h, of early_stop_run
      "\<lparr>mainq = [], consq = Some [], counter = 0, status = Exited\<rparr>"]
    run_early_stop_run h c
  show ?thesis
    by simp
qed


section \<open>Properties of the task queue\<close>

subsection \<open>Retry and archive\<close>

lemma execute_failing:
  assumes "reg (env_type t) = Some h" and "h n (env_payload t) = Some err"
  shows "execute reg pol n now (promote now t)
           = Some (retry now ((promote now t)\<lparr>env_state := Active\<rparr>) err
                     (backoff pol (retry_count t)))"
  using assms by (simp add: execute_def promote_def Let_def)

lemma retry_fields:
  "env_type (retry now t err d) = env_type t"
  "env_payload (retry now t err d) = env_payload t"
  "max_retry (retry now t err d) = max_retry t"
  "retry_count (retry now t err d) = retry_count t + 1"
  by (simp_all add: retry_def Let_def)

lemma retry_state:
  "env_state (retry now t err d) = (if retry_count t + 1 > max_retry t then Archived else Retry)"
  by (simp add: retry_def Let_def)

lemma promote_fields:
  "env_type (promote now t) = env_type t"
  "env_payload (promote now t) = env_payload t"
  "max_retry (promote now t) = max_retry t"
  "retry_count (promote now t) = retry_count t"
  by (simp_all add: promote_def)

lemma after_attempts_failing:
  assumes "reg (env_type t) = Some h"
      and "\<forall>i. h i (env_payload t) \<noteq> None"
      and "env_state t \<noteq> Archived"
      and "retry_count t + k \<le> max_retry t + 1"
  shows "\<exists>t'. after_attempts reg pol clock t n k = Some t'
            \<and> retry_count t' = retry_count t + k
            \<and> max_retry t' = max_retry t
            \<and> env_type t' = env_type t
            \<and> env_payload t' = env_payload t
            \<and> (env_state t' = Archived) = (k > 0 \<and> retry_count t + k = max_retry t + 1)"
  using assms
proof (induction k arbitrary: t n)
  case 0
  then show ?case by simp
next
  case (Suc k)
  let ?now = "max (clock n) (process_at t)"
  from Suc.prems(2) have "h n (env_payload t) \<noteq> None" by blast
  then obtain err where err: "h n (env_payload t) = Some err"
    by (cases "h n (env_payload t)") simp_all
  let ?t1 = "retry ?now ((promote ?now t)\<lparr>env_state := Active\<rparr>) err
               (backoff pol (retry_count t))"
  have ex: "execute reg pol n ?now (promote ?now t) = Some ?t1"
    using Suc.prems(1) err by (rule execute_failing)
  have step: "after_attempts reg pol clock t n (Suc k)
                = after_attempts reg pol clock ?t1 (Suc n) k"
    using Suc.prems(3) by (simp add: ex)
  have f1: "retry_count ?t1 = retry_count t + 1" "max_retry ?t1 = max_retry t"
    "env_type ?t1 = env_type t" "env_payload ?t1 = env_payload t"
    by (simp_all add: retry_fields promote_fields)
  have s1: "env_state ?t1 = (if retry_count t + 1 > max_retry t then Archived else Retry)"
    by (simp add: retry_state promote_fields)
  show ?case
  proof (cases k)
    case 0
    have "after_attempts reg pol clock ?t1 (Suc n) 0 = Some ?t1" by simp
    with step 0 have "after_attempts reg pol clock t n (Suc k) = Some ?t1" by simp
    moreover have "(env_state ?t1 = Archived)
                     = (Suc k > 0 \<and> retry_count t + Suc k = max_retry t + 1)"
      using s1 0 Suc.prems(4) by auto
    ultimately show ?thesis
      using f1 0 by simp
  next
    case (Suc j)
    with Suc.prems(4) have lt: "retry_count t + 1 \<le> max_retry t" by simp
    then have na: "env_state ?t1 \<noteq> Archived" using s1 by simp
    have "\<exists>t'. after_attempts reg pol clock ?t1 (Suc n) k = Some t'
            \<and> retry_count t' = retry_count ?t1 + k
            \<and> max_retry t' = max_retry ?t1
            \<and> env_type t' = env_type ?t1
            \<and> env_payload t' = env_payload ?t1
            \<and> (env_state t' = Archived) = (k > 0 \<and> retry_count ?t1 + k = max_retry ?t1 + 1)"
    proof (rule Suc.IH)
      show "reg (env_type ?t1) = Some h" using Suc.prems(1) f1 by simp
      show "\<forall>i. h i (env_payload ?t1) \<noteq> None" using Suc.prems(2) f1 by simp
      show "env_state ?t1 \<noteq> Archived" by (rule na)
      show "retry_count ?t1 + k \<le> max_retry ?t1 + 1" using \<open>retry_count t + Suc k \<le> max_retry t + 1\<close> f1 by simp
    qed
    then obtain t' where t': "after_attempts reg pol clock ?t1 (Suc n) k = Some t'"
        "retry_count t' = retry_count ?t1 + k" "max_retry t' = max_retry ?t1"
        "env_type t' = env_type ?t1" "env_payload t' = env_payload ?t1"
        "(env_state t' = Archived) = (k > 0 \<and> retry_count ?t1 + k = max_retry ?t1 + 1)"
      by blast
    have "after_attempts reg pol clock t n (Suc k) = Some t'"
      using step t'(1) by simp
    moreover have "(env_state t' = Archived)
                     = (Suc k > 0 \<and> retry_count t + Suc k = max_retry t + 1)"
      using t'(6) f1 Suc by simp
    ultimately show ?thesis
      using t'(2-5) f1 by simp
  qed
qed

lemma run_task_failing:
  assumes "reg (env_type t) = Some h"
      and "\<forall>i. h i (env_payload t) \<noteq> None"
      and "env_state t \<noteq> Archived"
      and "retry_count t \<le> max_retry t"
  shows "\<exists>t'. run_task reg pol clock t n
                 = (Some t', n + (max_retry t + 1 - retry_count t))
            \<and> env_state t' = Archived
            \<and> retry_count t' = max_retry t + 1
            \<and> env_payload t' = env_payload t"
  using assms
proof (induction "max_retry t - retry_count t" arbitrary: t n)
  case 0
  let ?now = "max (clock n) (process_at t)"
  from "0.prems"(2) have "h n (env_payload t) \<noteq> None" by blast
  then obtain err where err: "h n (env_payload t) = Some err"
    by (cases "h n (env_payload t)") simp_all
  let ?t1 = "retry ?now ((promote ?now t)\<lparr>env_state := Active\<rparr>) err
               (backoff pol (retry_count t))"
  have ex: "execute reg pol n ?now (promote ?now t) = Some ?t1"
    using "0.prems"(1) err by (rule execute_failing)
  have eq: "retry_count t = max_retry t"
    using "0.hyps" "0.prems"(4) by simp
  have s1: "env_state ?t1 = Archived"
    using eq by (simp add: retry_state promote_fields)
  have "run_task reg pol clock t n = run_task reg pol clock ?t1 (Suc n)"
    using "0.prems"(3) by (subst run_task.simps) (simp add: ex)
  also have "\<dots> = (Some ?t1, Suc n)"
    using s1 by (subst run_task.simps) simp
  finally have "run_task reg pol clock t n = (Some ?t1, n + (max_retry t + 1 - retry_count t))"
    using eq by simp
  then show ?case
    using s1 eq by (simp add: retry_fields promote_fields)
next
  case (Suc d)
  let ?now = "max (clock n) (process_at t)"
  from Suc.prems(2) have "h n (env_payload t) \<noteq> None" by blast
  then obtain err where err: "h n (env_payload t) = Some err"
    by (cases "h n (env_payload t)") simp_all
  let ?t1 = "retry ?now ((promote ?now t)\<lparr>env_state := Active\<rparr>) err
               (backoff pol (retry_count t))"
  have ex: "execute reg pol n ?now (promote ?now t) = Some ?t1"
    using Suc.prems(1) err by (rule execute_failing)
  have lt: "retry_count t < max_retry t"
    using Suc.hyps(2) by simp
  have f1: "retry_count ?t1 = retry_count t + 1" "max_retry ?t1 = max_retry t"
    "env_type ?t1 = env_type t" "env_payload ?t1 = env_payload t"
    by (simp_all add: retry_fields promote_fields)
  have s1: "env_state ?t1 \<noteq> Archived"
    using lt by (simp add: retry_state promote_fields)
  have step: "run_task reg pol clock t n = run_task reg pol clock ?t1 (Suc n)"
    using Suc.prems(3) by (subst run_task.simps) (simp add: ex)
  have "\<exists>t'. run_task reg pol clock ?t1 (Suc n)
                 = (Some t', Suc n + (max_retry ?t1 + 1 - retry_count ?t1))
            \<and> env_state t' = Archived
            \<and> retry_count t' = max_retry ?t1 + 1
            \<and> env_payload t' = env_payload ?t1"
  proof (rule Suc.hyps(1))
    show "d = max_retry ?t1 - retry_count ?t1" using Suc.hyps(2) f1 by simp
    show "reg (env_type ?t1) = Some h" using Suc.prems(1) f1 by simp
    show "\<forall>i. h i (env_payload ?t1) \<noteq> None" using Suc.prems(2) f1 by simp
    show "env_state ?t1 \<noteq> Archived" by (rule s1)
    show "retry_count ?t1 \<le> max_retry ?t1" using lt f1 by simp
  qed
  then obtain t' where t': "run_task reg pol clock ?t1 (Suc n)
                 = (Some t', Suc n + (max_retry ?t1 + 1 - retry_count ?t1))"
      "env_state t' = Archived" "retry_count t' = max_retry ?t1 + 1"
      "env_payload t' = env_payload ?t1"
    by blast
  have ar: "Suc n + (max_retry ?t1 + 1 - retry_count ?t1)
              = n + (max_retry t + 1 - retry_count t)"
    using lt f1 by simp
  have "run_task reg pol clock t n
          = (Some t', Suc n + (max_retry ?t1 + 1 - retry_count ?t1))"
    by (rule trans [OF step t'(1)])
  then have "run_task reg pol clock t n
      = (Some t', n + (max_retry t + 1 - retry_count t))"
    by (simp only: ar)
  moreover have "retry_count t' = max_retry t + 1" "env_payload t' = env_payload t"
    using t'(3,4) f1 by simp_all
  ultimately show ?case
    using t'(2) by blast
qed

text \<open>
  C2.  A task whose handler fails at every attempt is archived after exactly
  \<open>max_retry + 1\<close> executions: after any smaller number \<open>k\<close> of executions it is not
  archived and has \<open>retry_count = k\<close>, after \<open>max_retry + 1\<close> it is archived, and the
  dispatcher executes it \<open>max_retry + 1\<close> times in all.  A retry increments
  \<open>retry_count\<close>; it sets \<open>process_at = now + backoff\<close> and the state \<open>Retry\<close> as long as
  the incremented count does not exceed \<open>max_retry\<close>, and archives the task when it does.
\<close>

theorem failing_task_archived_after_max_retry_plus_one:
  assumes "reg (env_type t) = Some h"
      and "\<forall>i. h i (env_payload t) \<noteq> None"
      and "env_state t \<noteq> Archived"
      and "retry_count t = 0"
  shows "(\<exists>t'. run_task reg pol clock t 0 = (Some t', max_retry t + 1)
             \<and> env_state t' = Archived)
       \<and> (\<forall>k \<le> max_retry t. \<exists>t'. after_attempts reg pol clock t 0 k = Some t'
             \<and> env_state t' \<noteq> Archived \<and> retry_count t' = k)
       \<and> (\<exists>t'. after_attempts reg pol clock t 0 (max_retry t + 1) = Some t'
             \<and> env_state t' = Archived)
       \<and> retry_count (retry now a err delay) = retry_count a + 1
       \<and> (if retry_count a + 1 > max_retry a
           then env_state (retry now a err delay) = Archived
           else env_state (retry now a err delay) = Retry
              \<and> process_at (retry now a err delay) = now + delay)"
proof -
  have r: "\<exists>t'. run_task reg pol clock t 0 = (Some t', max_retry t + 1)
             \<and> env_state t' = Archived"
    using run_task_failing [of reg t h pol clock 0] assms by auto
  have b: "\<forall>k \<le> max_retry t. \<exists>t'. after_attempts reg pol clock t 0 k = Some t'
             \<and> env_state t' \<noteq> Archived \<and> retry_count t' = k"
  proof (intro allI impI)
    fix k assume k: "k \<le> max_retry t"
    then have "retry_count t + k \<le> max_retry t + 1" using assms(4) by simp
    with after_attempts_failing [of reg t h k pol clock 0] assms
    show "\<exists>t'. after_attempts reg pol clock t 0 k = Some t'
             \<and> env_state t' \<noteq> Archived \<and> retry_count t' = k"
      using k by auto
  qed
  have "retry_count t + (max_retry t + 1) \<le> max_retry t + 1" using assms(4) by simp
  with after_attempts_failing [of reg t h "max_retry t + 1" pol clock 0] assms
  have e: "\<exists>t'. after_attempts reg pol clock t 0 (max_retry t + 1) = Some t'
             \<and> env_state t' = Archived"
    by auto
  have q: "retry_count (retry now a err delay) = retry_count a + 1
       \<and> (if retry_count a + 1 > max_retry a
           then env_state (retry now a err delay) = Archived
           else env_state (retry now a err delay) = Retry
              \<and> process_at (retry now a err delay) = now + delay)"
    by (simp add: retry_def Let_def)
  show ?thesis
    using r b e q by blast
qed

theorem failing_task_archived_after_max_retry_plus_one_witness:
  "failing_registry (env_type sample_envelope) = Some (\<lambda>n payload. Some ''smtp down'')
   \<and> (\<forall>i. (\<lambda>n payload. Some ''smtp down'') i (env_payload sample_envelope) \<noteq> None)
   \<and> env_state sample_envelope \<noteq> Archived
   \<and> retry_count sample_envelope = 0
   \<and> (\<exists>t'. run_task failing_registry sample_policy (\<lambda>n. 0) sample_envelope 0 = (Some t', 3)
          \<and> env_state t' = Archived)"
proof -
  have h1: "failing_registry (env_type sample_envelope) = Some (\<lambda>n payload. Some ''smtp down'')"
    by (simp add: failing_registry_def sample_envelope_def)
  have h2: "\<forall>i. (\<lambda>n payload. Some ''smtp down'') i (env_payload sample_envelope) \<noteq> None"
    by simp
  have h3: "env_state sample_envelope \<noteq> Archived"
    by (simp add: sample_envelope_def)
  have h4: "retry_count sample_envelope = 0"
    by (simp add: sample_envelope_def)
  have m: "max_retry sample_envelope + 1 = 3"
    by (simp add: sample_envelope_def)
  from failing_task_archived_after_max_retry_plus_one
         [where reg = failing_registry and t = sample_envelope
            and h = "\<lambda>n payload. Some ''smtp down''"
            and pol = sample_policy and clock = "\<lambda>n. 0"] h1 h2 h3 h4
  have "\<exists>t'. run_task failing_registry sample_policy (\<lambda>n. 0) sample_envelope 0
                = (Some t', max_retry sample_envelope + 1)
            \<and> env_state t' = Archived"
    by blast
  then have "\<exists>t'. run_task failing_registry sample_policy (\<lambda>n. 0) sample_envelope 0
                = (Some t', 3) \<and> env_state t' = Archived"
    by (simp only: m)
  with h1 h2 h3 h4 show ?thesis by blast
qed

subsection \<open>The periodic entry\<close>

lemma tick_template: "entry_template (snd (tick queue retries now fresh_id e)) = entry_template e"
  by (simp add: tick_def)

lemma tick_envelope:
  "env \<in> set (fst (tick queue retries now fresh_id e)) \<Longrightarrow>
     env_type env = Typename (entry_template e) \<and> env_payload env = Payload (entry_template e)"
  by (simp add: tick_def fire_def split: if_splits)

lemma run_scheduler_envelope:
  "env \<in> set (run_scheduler queue retries e fresh_id ticks) \<Longrightarrow>
     env_type env = Typename (entry_template e) \<and> env_payload env = Payload (entry_template e)"
proof (induction ticks arbitrary: e fresh_id)
  case Nil
  then show ?case by simp
next
  case (Cons now later)
  let ?step = "tick queue retries now fresh_id e"
  from Cons.prems have "env \<in> set (fst ?step)
      \<or> env \<in> set (run_scheduler queue retries (snd ?step)
                      (fresh_id + length (fst ?step)) later)"
    by simp
  then show ?case
  proof
    assume "env \<in> set (fst ?step)"
    then show ?thesis by (rule tick_envelope)
  next
    assume "env \<in> set (run_scheduler queue retries (snd ?step)
                      (fresh_id + length (fst ?step)) later)"
    then have "env_type env = Typename (entry_template (snd ?step))
        \<and> env_payload env = Payload (entry_template (snd ?step))"
      by (rule Cons.IH)
    then show ?thesis by (simp add: tick_template)
  qed
qed

lemma main_registered_tasks:
  "registered_tasks (main w)
     = (case MarshalServerInfo w (serverInfoPayload w) of
          Inl err \<Rightarrow> []
        | Inr payload \<Rightarrow> [(''@every 30s'', NewTask TypeServerInfo payload)])"
  by (simp add: main_def main_before_signal_def main_setup_def main_scheduler_def
      main_producer_def main_shutdown_def main_deferred_def
      welcome_loop_no_register email_loop_no_register
      split: sum.splits option.splits)

lemma register_template: "register parse now spec task = Inr e \<Longrightarrow> entry_template e = task"
  by (auto simp: register_def split: option.splits)

text \<open>
  C10.  The driver marshals the server-info payload once, with the clock value read at
  registration, and registers that one task with \<open>"@every 30s"\<close>.  Every envelope the
  scheduler produces from the entry, at whatever tick, carries exactly those bytes; a
  decoder that reads them back as the registered payload makes the handler print the
  registration-time \<open>Timestamp\<close> at every firing.
\<close>

theorem periodic_payload_bound_at_registration:
  assumes "MarshalServerInfo w (serverInfoPayload w) = Inr bs"
      and "(spec, task) \<in> set (registered_tasks (main w))"
      and "register parse now spec task = Inr e"
  shows "registered_tasks (main w) = [(''@every 30s'', NewTask TypeServerInfo bs)]
       \<and> Timestamp (serverInfoPayload w) = UnixNow w
       \<and> (\<forall>env \<in> set (run_scheduler queue retries e fresh_id ticks).
             env_type env = TypeServerInfo \<and> env_payload env = bs)
       \<and> (unm bs = Inr (serverInfoPayload w) \<longrightarrow>
            (\<forall>env \<in> set (run_scheduler queue retries e fresh_id ticks).
               InfoTimestampLine (UnixNow w)
                 \<in> set (fst (main_HandleServerInfoTask unm rt
                               (NewTask (env_type env) (env_payload env))))))"
proof -
  have r: "registered_tasks (main w) = [(''@every 30s'', NewTask TypeServerInfo bs)]"
    using assms(1) by (simp add: main_registered_tasks)
  with assms(2) have "task = NewTask TypeServerInfo bs" by simp
  with assms(3) have t: "entry_template e = NewTask TypeServerInfo bs"
    by (simp add: register_template)
  have p: "\<forall>env \<in> set (run_scheduler queue retries e fresh_id ticks).
             env_type env = TypeServerInfo \<and> env_payload env = bs"
  proof
    fix env assume "env \<in> set (run_scheduler queue retries e fresh_id ticks)"
    then have "env_type env = Typename (entry_template e)
        \<and> env_payload env = Payload (entry_template e)"
      by (rule run_scheduler_envelope)
    then show "env_type env = TypeServerInfo \<and> env_payload env = bs"
      by (simp add: t NewTask_def)
  qed
  have ts: "Timestamp (serverInfoPayload w) = UnixNow w"
    by (simp add: serverInfoPayload_def)
  have h: "unm bs = Inr (serverInfoPayload w) \<longrightarrow>
            (\<forall>env \<in> set (run_scheduler queue retries e fresh_id ticks).
               InfoTimestampLine (UnixNow w)
                 \<in> set (fst (main_HandleServerInfoTask unm rt
                               (NewTask (env_type env) (env_payload env)))))"
  proof (intro impI ballI)
    fix env
    assume u: "unm bs = Inr (serverInfoPayload w)"
      and "env \<in> set (run_scheduler queue retries e fresh_id ticks)"
    with p have "env_payload env = bs" by blast
    then have "main_HandleServerInfoTask unm rt (NewTask (env_type env) (env_payload env))
                 = common_HandleServerInfoTask rt (serverInfoPayload w)"
      using u by (simp add: main_HandleServerInfoTask_def NewTask_def)
    then show "InfoTimestampLine (UnixNow w)
                 \<in> set (fst (main_HandleServerInfoTask unm rt
                               (NewTask (env_type env) (env_payload env))))"
      by (simp add: common_HandleServerInfoTask_def avg_gc_pause_eq Let_def ts)
  qed
  from r ts p h show ?thesis by blast
qed

theorem periodic_payload_bound_at_registration_witness:
  "MarshalServerInfo sample_world (serverInfoPayload sample_world) = Inr ''s:periodic-monitor''
   \<and> (''@every 30s'', NewTask TypeServerInfo ''s:periodic-monitor'')
        \<in> set (registered_tasks (main sample_world))
   \<and> register sample_parse 0 ''@every 30s'' (NewTask TypeServerInfo ''s:periodic-monitor'')
       = Inr \<lparr>entry_interval = 30000000000,
              entry_template = NewTask TypeServerInfo ''s:periodic-monitor'',
              next_fire = 30000000000\<rparr>
   \<and> length (run_scheduler ''default'' 25
        \<lparr>entry_interval = 30000000000, entry_template = NewTask TypeServerInfo ''s:periodic-monitor'',
         next_fire = 30000000000\<rparr> 0 [0, 30000000000, 45000000000, 61000000000]) = 2
   \<and> list_all (\<lambda>env. env_type env = TypeServerInfo \<and> env_payload env = ''s:periodic-monitor'')
       (run_scheduler ''default'' 25
        \<lparr>entry_interval = 30000000000, entry_template = NewTask TypeServerInfo ''s:periodic-monitor'',
         next_fire = 30000000000\<rparr> 0 [0, 30000000000, 45000000000, 61000000000])"
proof -
  let ?e = "\<lparr>entry_interval = 30000000000, entry_template = NewTask TypeServerInfo ''s:periodic-monitor'',
             next_fire = 30000000000\<rparr>"
  have h1: "MarshalServerInfo sample_world (serverInfoPayload sample_world) = Inr ''s:periodic-monitor''"
    by (simp add: sample_world_def serverInfoPayload_def)
  have h2: "(''@every 30s'', NewTask TypeServerInfo ''s:periodic-monitor'')
              \<in> set (registered_tasks (main sample_world))"
    by (simp add: main_registered_tasks h1)
  have h3: "register sample_parse 0 ''@every 30s'' (NewTask TypeServerInfo ''s:periodic-monitor'') = Inr ?e"
    by (simp add: register_def sample_parse_def)
  have n: "length (run_scheduler ''default'' 25 ?e 0
             [0, 30000000000, 45000000000, 61000000000]) = 2"
    by (simp add: tick_def)
  from periodic_payload_bound_at_registration [OF h1 h2 h3]
  have "\<forall>env \<in> set (run_scheduler ''default'' 25 ?e 0
                       [0, 30000000000, 45000000000, 61000000000]).
          env_type env = TypeServerInfo \<and> env_payload env = ''s:periodic-monitor''"
    by blast
  then have "list_all (\<lambda>env. env_type env = TypeServerInfo \<and> env_payload env = ''s:periodic-monitor'')
       (run_scheduler ''default'' 25 ?e 0 [0, 30000000000, 45000000000, 61000000000])"
    by (simp only: list_all_iff)
  with h1 h2 h3 n show ?thesis by blast
qed

section \<open>The handlers under the dispatcher\<close>

lemma main_registrations:
  "registrations (main w)
     = [(TypeWelcomeMessage, WelcomeWrapper), (TypeEmailTask, EmailWrapper),
        (TypeServerInfo, ServerInfoWrapper)]"
proof -
  have "registrations (case Signal w of None \<Rightarrow> [] | Some s \<Rightarrow> main_shutdown s) = []"
    by (cases "Signal w") (simp_all add: main_shutdown_registrations)
  then show ?thesis
    by (simp add: main_def main_before_signal_def main_setup_def
        main_scheduler_registrations main_producer_registrations)
qed

lemma mux_registry_main:
  "mux_registry dec rt (registrations (main w)) TypeWelcomeMessage
     = Some (as_handler (main_HandleWelcomeTask (UnmarshalWelcome dec)) TypeWelcomeMessage)"
  "mux_registry dec rt (registrations (main w)) TypeEmailTask
     = Some (as_handler (main_HandleEmailTask (UnmarshalEmail dec)) TypeEmailTask)"
  "mux_registry dec rt (registrations (main w)) TypeServerInfo
     = Some (as_handler (main_HandleServerInfoTask (UnmarshalServerInfo dec) rt) TypeServerInfo)"
  by (simp_all add: mux_registry_def main_registrations TypeWelcomeMessage_def
      TypeEmailTask_def TypeServerInfo_def)

lemma execute_registered:
  assumes "reg (env_type e) = Some (as_handler f (env_type e))"
  shows "execute reg pol n now e
           = (case snd (f (NewTask (env_type e) (env_payload e))) of
                Return None \<Rightarrow> None
              | Return (Some err) \<Rightarrow>
                  Some (retry now (e\<lparr>env_state := Active\<rparr>) err (backoff pol (retry_count e)))
              | Panic x \<Rightarrow>
                  Some (retry now (e\<lparr>env_state := Active\<rparr>) ''panic''
                          (backoff pol (retry_count e))))"
  using assms
  by (simp add: execute_def as_handler_def Let_def split: result.splits option.splits)

text \<open>
  C9.  Each of the three common handlers returns \<open>nil\<close> for every payload, so each
  wrapper returns \<open>nil\<close> whenever the payload bytes decode; a task of one of the three
  types whose payload decodes is then acknowledged by the dispatcher at its first
  execution: it is neither retried nor archived.
\<close>

theorem common_handlers_return_nil:
  "snd (common_HandleWelcomeTask pw) = Return None
   \<and> snd (common_HandleEmailTask pe) = Return None
   \<and> snd (common_HandleServerInfoTask rt ps) = Return None
   \<and> (\<forall>p. UnmarshalWelcome dec (Payload t) = Inr p \<longrightarrow>
         snd (main_HandleWelcomeTask (UnmarshalWelcome dec) t) = Return None)
   \<and> (\<forall>p. UnmarshalEmail dec (Payload t) = Inr p \<longrightarrow>
         snd (main_HandleEmailTask (UnmarshalEmail dec) t) = Return None)
   \<and> (\<forall>p. UnmarshalServerInfo dec (Payload t) = Inr p \<longrightarrow>
         snd (main_HandleServerInfoTask (UnmarshalServerInfo dec) rt t) = Return None)
   \<and> (\<forall>p. env_type e = TypeWelcomeMessage \<and> UnmarshalWelcome dec (env_payload e) = Inr p \<longrightarrow>
         execute (mux_registry dec rt (registrations (main w))) pol n now e = None)
   \<and> (\<forall>p. env_type e = TypeEmailTask \<and> UnmarshalEmail dec (env_payload e) = Inr p \<longrightarrow>
         execute (mux_registry dec rt (registrations (main w))) pol n now e = None)
   \<and> (\<forall>p. env_type e = TypeServerInfo \<and> UnmarshalServerInfo dec (env_payload e) = Inr p \<longrightarrow>
         execute (mux_registry dec rt (registrations (main w))) pol n now e = None)"
proof -
  have c: "snd (common_HandleWelcomeTask pw) = Return None
       \<and> snd (common_HandleEmailTask pe) = Return None
       \<and> snd (common_HandleServerInfoTask rt ps) = Return None"
    by (simp add: common_HandleWelcomeTask_def common_HandleEmailTask_def
        common_HandleServerInfoTask_returns)
  have m: "(\<forall>p. UnmarshalWelcome dec (Payload t) = Inr p \<longrightarrow>
         snd (main_HandleWelcomeTask (UnmarshalWelcome dec) t) = Return None)
   \<and> (\<forall>p. UnmarshalEmail dec (Payload t) = Inr p \<longrightarrow>
         snd (main_HandleEmailTask (UnmarshalEmail dec) t) = Return None)
   \<and> (\<forall>p. UnmarshalServerInfo dec (Payload t) = Inr p \<longrightarrow>
         snd (main_HandleServerInfoTask (UnmarshalServerInfo dec) rt t) = Return None)"
    by (simp add: common_HandleWelcomeTask_def common_HandleEmailTask_def
        common_HandleServerInfoTask_returns main_HandleWelcomeTask_def
        main_HandleEmailTask_def main_HandleServerInfoTask_def)
  have xw: "\<forall>p. env_type e = TypeWelcomeMessage \<and> UnmarshalWelcome dec (env_payload e) = Inr p \<longrightarrow>
         execute (mux_registry dec rt (registrations (main w))) pol n now e = None"
    by (auto simp: execute_registered mux_registry_main main_HandleWelcomeTask_def
        common_HandleWelcomeTask_def NewTask_def)
  have xe: "\<forall>p. env_type e = TypeEmailTask \<and> UnmarshalEmail dec (env_payload e) = Inr p \<longrightarrow>
         execute (mux_registry dec rt (registrations (main w))) pol n now e = None"
    by (auto simp: execute_registered mux_registry_main main_HandleEmailTask_def
        common_HandleEmailTask_def NewTask_def)
  have xs: "\<forall>p. env_type e = TypeServerInfo \<and> UnmarshalServerInfo dec (env_payload e) = Inr p \<longrightarrow>
         execute (mux_registry dec rt (registrations (main w))) pol n now e = None"
    by (auto simp: execute_registered mux_registry_main main_HandleServerInfoTask_def
        common_HandleServerInfoTask_returns NewTask_def)
  from c m xw xe xs show ?thesis by blast
qed

theorem common_handlers_return_nil_witness:
  "env_type sample_envelope = TypeEmailTask
   \<and> UnmarshalEmail
        \<lparr>UnmarshalWelcome = (\<lambda>b. Inl ''EOF''),
         UnmarshalEmail = (\<lambda>b. Inr \<lparr>EmailUserID = 4, Email = ''a@b'', Subject = ''s'',
                                     EmailMessage = ''m''\<rparr>),
         UnmarshalServerInfo = (\<lambda>b. Inl ''EOF'')\<rparr> (env_payload sample_envelope)
       = Inr \<lparr>EmailUserID = 4, Email = ''a@b'', Subject = ''s'', EmailMessage = ''m''\<rparr>
   \<and> execute
        (mux_registry
           \<lparr>UnmarshalWelcome = (\<lambda>b. Inl ''EOF''),
            UnmarshalEmail = (\<lambda>b. Inr \<lparr>EmailUserID = 4, Email = ''a@b'', Subject = ''s'',
                                        EmailMessage = ''m''\<rparr>),
            UnmarshalServerInfo = (\<lambda>b. Inl ''EOF'')\<rparr>
           \<lparr>ReadMemStats = \<lparr>Alloc = 0, Sys = 0, NumGC = 0, PauseTotalNs = 0, HeapAlloc = 0,
                            HeapSys = 0, HeapObjects = 0\<rparr>,
            NumCPU = 1, NumGoroutine = 1, TimeNow = 0\<rparr>
           (registrations (main sample_world)))
        sample_policy 0 0 sample_envelope = None
   \<and> snd (common_HandleEmailTask
            \<lparr>EmailUserID = 4, Email = ''a@b'', Subject = ''s'', EmailMessage = ''m''\<rparr>)
       = Return None"
proof -
  let ?p = "\<lparr>EmailUserID = 4, Email = ''a@b'', Subject = ''s'', EmailMessage = ''m''\<rparr>"
  let ?dec = "\<lparr>UnmarshalWelcome = (\<lambda>b. Inl ''EOF''), UnmarshalEmail = (\<lambda>b. Inr ?p),
               UnmarshalServerInfo = (\<lambda>b. Inl ''EOF'')\<rparr>"
  let ?rt = "\<lparr>ReadMemStats = \<lparr>Alloc = 0, Sys = 0, NumGC = 0, PauseTotalNs = 0, HeapAlloc = 0,
                            HeapSys = 0, HeapObjects = 0\<rparr>,
            NumCPU = 1, NumGoroutine = 1, TimeNow = 0\<rparr>"
  have h1: "env_type sample_envelope = TypeEmailTask"
    by (simp add: sample_envelope_def)
  have h2: "UnmarshalEmail ?dec (env_payload sample_envelope) = Inr ?p"
    by simp
  note t = common_handlers_return_nil
             [where dec = ?dec and e = sample_envelope and pe = ?p and rt = ?rt
                and w = sample_world and pol = sample_policy and n = 0 and now = 0]
  from t h1 h2
  have x: "execute (mux_registry ?dec ?rt (registrations (main sample_world)))
             sample_policy 0 0 sample_envelope = None"
    by blast
  from t have y: "snd (common_HandleEmailTask ?p) = Return None"
    by blast
  from h1 h2 x y show ?thesis by blast
qed

text \<open>
  C3.  Each wrapper returns a non-nil error exactly when \<open>json.Unmarshal\<close> of the task
  payload fails.  On a decode failure the error returned is the decode error under the
  wrapper's fixed text, nothing of the common handler has run (no line is printed), and
  the wrapper does not panic; the dispatcher then takes the task through \<open>retry\<close> with
  that error.
\<close>

theorem wrappers_fail_iff_unmarshal_fails:
  "((\<exists>err. snd (main_HandleWelcomeTask (UnmarshalWelcome dec) t) = Return (Some err))
      = (\<exists>err. UnmarshalWelcome dec (Payload t) = Inl err))
   \<and> ((\<exists>err. snd (main_HandleEmailTask (UnmarshalEmail dec) t) = Return (Some err))
        = (\<exists>err. UnmarshalEmail dec (Payload t) = Inl err))
   \<and> ((\<exists>err. snd (main_HandleServerInfoTask (UnmarshalServerInfo dec) rt t) = Return (Some err))
        = (\<exists>err. UnmarshalServerInfo dec (Payload t) = Inl err))
   \<and> (\<forall>err. UnmarshalWelcome dec (Payload t) = Inl err \<longrightarrow>
         main_HandleWelcomeTask (UnmarshalWelcome dec) t
           = ([], Return (Some (''failed to unmarshal welcome payload: '' @ err))))
   \<and> (\<forall>err. UnmarshalEmail dec (Payload t) = Inl err \<longrightarrow>
         main_HandleEmailTask (UnmarshalEmail dec) t
           = ([], Return (Some (''failed to unmarshal email payload: '' @ err))))
   \<and> (\<forall>err. UnmarshalServerInfo dec (Payload t) = Inl err \<longrightarrow>
         main_HandleServerInfoTask (UnmarshalServerInfo dec) rt t
           = ([], Return (Some (''failed to unmarshal server info payload: '' @ err))))
   \<and> (\<forall>p. UnmarshalWelcome dec (Payload t) = Inr p \<longrightarrow>
         main_HandleWelcomeTask (UnmarshalWelcome dec) t = common_HandleWelcomeTask p)
   \<and> (\<forall>p. UnmarshalEmail dec (Payload t) = Inr p \<longrightarrow>
         main_HandleEmailTask (UnmarshalEmail dec) t = common_HandleEmailTask p)
   \<and> (\<forall>p. UnmarshalServerInfo dec (Payload t) = Inr p \<longrightarrow>
         main_HandleServerInfoTask (UnmarshalServerInfo dec) rt t
           = common_HandleServerInfoTask rt p)
   \<and> (\<forall>x. snd (main_HandleWelcomeTask (UnmarshalWelcome dec) t) \<noteq> Panic x)
   \<and> (\<forall>x. snd (main_HandleEmailTask (UnmarshalEmail dec) t) \<noteq> Panic x)
   \<and> (\<forall>x. snd (main_HandleServerInfoTask (UnmarshalServerInfo dec) rt t) \<noteq> Panic x)
   \<and> (\<forall>err. env_type e = TypeWelcomeMessage \<and> UnmarshalWelcome dec (env_payload e) = Inl err \<longrightarrow>
         execute (mux_registry dec rt (registrations (main w))) pol n now e
           = Some (retry now (e\<lparr>env_state := Active\<rparr>)
                     (''failed to unmarshal welcome payload: '' @ err)
                     (backoff pol (retry_count e))))
   \<and> (\<forall>err. env_type e = TypeEmailTask \<and> UnmarshalEmail dec (env_payload e) = Inl err \<longrightarrow>
         execute (mux_registry dec rt (registrations (main w))) pol n now e
           = Some (retry now (e\<lparr>env_state := Active\<rparr>)
                     (''failed to unmarshal email payload: '' @ err)
                     (backoff pol (retry_count e))))
   \<and> (\<forall>err. env_type e = TypeServerInfo \<and> UnmarshalServerInfo dec (env_payload e) = Inl err \<longrightarrow>
         execute (mux_registry dec rt (registrations (main w))) pol n now e
           = Some (retry now (e\<lparr>env_state := Active\<rparr>)
                     (''failed to unmarshal server info payload: '' @ err)
                     (backoff pol (retry_count e))))"
proof -
  let ?unmW = "UnmarshalWelcome dec" and ?unmE = "UnmarshalEmail dec"
    and ?unmS = "UnmarshalServerInfo dec"
  have w: "(\<exists>err. snd (main_HandleWelcomeTask ?unmW t) = Return (Some err))
             = (\<exists>err. ?unmW (Payload t) = Inl err)"
    by (cases "?unmW (Payload t)")
       (simp_all add: main_HandleWelcomeTask_def common_HandleWelcomeTask_def)
  have e: "(\<exists>err. snd (main_HandleEmailTask ?unmE t) = Return (Some err))
             = (\<exists>err. ?unmE (Payload t) = Inl err)"
    by (cases "?unmE (Payload t)")
       (simp_all add: main_HandleEmailTask_def common_HandleEmailTask_def)
  have s: "(\<exists>err. snd (main_HandleServerInfoTask ?unmS rt t) = Return (Some err))
             = (\<exists>err. ?unmS (Payload t) = Inl err)"
    by (cases "?unmS (Payload t)")
       (simp_all add: main_HandleServerInfoTask_def common_HandleServerInfoTask_returns)
  have pw: "\<forall>x. snd (main_HandleWelcomeTask ?unmW t) \<noteq> Panic x"
    by (cases "?unmW (Payload t)")
       (simp_all add: main_HandleWelcomeTask_def common_HandleWelcomeTask_def)
  have pe: "\<forall>x. snd (main_HandleEmailTask ?unmE t) \<noteq> Panic x"
    by (cases "?unmE (Payload t)")
       (simp_all add: main_HandleEmailTask_def common_HandleEmailTask_def)
  have ps: "\<forall>x. snd (main_HandleServerInfoTask ?unmS rt t) \<noteq> Panic x"
    by (cases "?unmS (Payload t)")
       (simp_all add: main_HandleServerInfoTask_def common_HandleServerInfoTask_returns)
  have d: "(\<forall>err. ?unmW (Payload t) = Inl err \<longrightarrow>
         main_HandleWelcomeTask ?unmW t
           = ([], Return (Some (''failed to unmarshal welcome payload: '' @ err))))
   \<and> (\<forall>err. ?unmE (Payload t) = Inl err \<longrightarrow>
         main_HandleEmailTask ?unmE t
           = ([], Return (Some (''failed to unmarshal email payload: '' @ err))))
   \<and> (\<forall>err. ?unmS (Payload t) = Inl err \<longrightarrow>
         main_HandleServerInfoTask ?unmS rt t
           = ([], Return (Some (''failed to unmarshal server info payload: '' @ err))))
   \<and> (\<forall>p. ?unmW (Payload t) = Inr p \<longrightarrow>
         main_HandleWelcomeTask ?unmW t = common_HandleWelcomeTask p)
   \<and> (\<forall>p. ?unmE (Payload t) = Inr p \<longrightarrow>
         main_HandleEmailTask ?unmE t = common_HandleEmailTask p)
   \<and> (\<forall>p. ?unmS (Payload t) = Inr p \<longrightarrow>
         main_HandleServerInfoTask ?unmS rt t = common_HandleServerInfoTask rt p)"
    by (simp add: main_HandleWelcomeTask_def main_HandleEmailTask_def
        main_HandleServerInfoTask_def)
  have xw: "\<forall>err. env_type e = TypeWelcomeMessage \<and> ?unmW (env_payload e) = Inl err \<longrightarrow>
         execute (mux_registry dec rt (registrations (main w))) pol n now e
           = Some (retry now (e\<lparr>env_state := Active\<rparr>)
                     (''failed to unmarshal welcome payload: '' @ err)
                     (backoff pol (retry_count e)))"
    by (auto simp: execute_registered mux_registry_main main_HandleWelcomeTask_def
        NewTask_def)
  have xe: "\<forall>err. env_type e = TypeEmailTask \<and> ?unmE (env_payload e) = Inl err \<longrightarrow>
         execute (mux_registry dec rt (registrations (main w))) pol n now e
           = Some (retry now (e\<lparr>env_state := Active\<rparr>)
                     (''failed to unmarshal email payload: '' @ err)
                     (backoff pol (retry_count e)))"
    by (auto simp: execute_registered mux_registry_main main_HandleEmailTask_def
        NewTask_def)
  have xs: "\<forall>err. env_type e = TypeServerInfo \<and> ?unmS (env_payload e) = Inl err \<longrightarrow>
         execute (mux_registry dec rt (registrations (main w))) pol n now e
           = Some (retry now (e\<lparr>env_state := Active\<rparr>)
                     (''failed to unmarshal server info payload: '' @ err)
                     (backoff pol (retry_count e)))"
    by (auto simp: execute_registered mux_registry_main main_HandleServerInfoTask_def
        NewTask_def)
  from w e s pw pe ps d xw xe xs show ?thesis by blast
qed

theorem wrappers_fail_iff_unmarshal_fails_witness:
  "UnmarshalWelcome
       \<lparr>UnmarshalWelcome = (\<lambda>b. Inl ''unexpected end of JSON input''),
        UnmarshalEmail = (\<lambda>b. Inl ''EOF''), UnmarshalServerInfo = (\<lambda>b. Inl ''EOF'')\<rparr>
       (Payload (NewTask TypeWelcomeMessage []))
     = Inl ''unexpected end of JSON input''
   \<and> main_HandleWelcomeTask
        (UnmarshalWelcome
           \<lparr>UnmarshalWelcome = (\<lambda>b. Inl ''unexpected end of JSON input''),
            UnmarshalEmail = (\<lambda>b. Inl ''EOF''), UnmarshalServerInfo = (\<lambda>b. Inl ''EOF'')\<rparr>)
        (NewTask TypeWelcomeMessage [])
       = ([], Return (Some (''failed to unmarshal welcome payload: ''
                              @ ''unexpected end of JSON input'')))"
proof -
  let ?dec = "\<lparr>UnmarshalWelcome = (\<lambda>b. Inl ''unexpected end of JSON input''),
        UnmarshalEmail = (\<lambda>b. Inl ''EOF''), UnmarshalServerInfo = (\<lambda>b. Inl ''EOF'')\<rparr>"
  have h: "UnmarshalWelcome ?dec (Payload (NewTask TypeWelcomeMessage []))
             = Inl ''unexpected end of JSON input''"
    by simp
  from wrappers_fail_iff_unmarshal_fails
         [where dec = ?dec and t = "NewTask TypeWelcomeMessage []"] h
  have "main_HandleWelcomeTask (UnmarshalWelcome ?dec) (NewTask TypeWelcomeMessage [])
       = ([], Return (Some (''failed to unmarshal welcome payload: ''
                              @ ''unexpected end of JSON input'')))"
    by blast
  with h show ?thesis by blast
qed

section \<open>The round trip of a payload through encoding/json\<close>


















subsection \<open>Strings: what appendString writes, unquote reads back\<close>












subsection \<open>Numbers: what FormatInt writes, ParseInt reads back\<close>












subsection \<open>The scanner on what the encoder writes\<close>



















subsection \<open>The scanner on an encoded struct\<close>









subsection \<open>The tokens of an encoded struct\<close>









subsection \<open>The decoder on an encoded struct\<close>





lemma word_of_sint: "word_of_int (sint (w :: 64 word)) = w"
  by simp





subsection \<open>Payloads from the client to the handler\<close>











end
